theory Spec2Isabelle
  imports Complex_Main "HOL-Library.AList"
begin

section \<open>The instance registry of ida-pro-mcp\<close>

text \<open>
  A shallow embedding of \<^verbatim>\<open>src/ida_pro_mcp/instance_registry.py\<close>.

  \<^item> Python values are dynamically typed: the values that \<^verbatim>\<open>json.load\<close> can
    return are the datatype \<open>json\<close>, and the fields of an \<open>InstanceInfo\<close> hold such
    values, since neither \<^verbatim>\<open>InstanceInfo.__init__\<close> nor \<^verbatim>\<open>from_dict\<close> checks a type.
    Function parameters have the types of their annotations.
  \<^item> The registry directory is an association list from the stem of a file name (the
    \<open>instance_id\<close> of \<^verbatim>\<open>_instance_file\<close>) to the content of the file, in the order in
    which \<^verbatim>\<open>glob\<close> yields the files. Ids are taken to be plain file-name stems.
  \<^item> Real time, the process table and the sockets of the machine are read from an
    environment \<open>env\<close>; one call of an operation sees one clock reading.
  \<^item> Floating-point numbers are real numbers: rounding is not modelled, the
    \<open>OverflowError\<close> of converting an integer beyond the range of a double is.
  \<^item> A Python \<^verbatim>\<open>str\<close> is the list of the bytes of its UTF-8 encoding. On ASCII text
    \<^verbatim>\<open>str.lower()\<close> folds the letters A to Z; on other text it follows the Unicode
    tables of the Python library, which the environment supplies.
  \<^item> An operation returns the exception it raises (\<open>Inl\<close>) or its value (\<open>Inr\<close>),
    together with the directory it leaves behind.
  \<^item> The directory can be created, read and written: \<^verbatim>\<open>mkdir\<close>, \<^verbatim>\<open>open(.., "w")\<close>
    and \<^verbatim>\<open>unlink\<close> of an existing file succeed, and opening a file for reading raises
    \<open>OSError\<close> only when the file is missing.
\<close>

subsection \<open>Values, exceptions, files\<close>

datatype json =
    JNull
  | JBool bool
  | JInt int
  | JFloat real
  | JStr string
  | JList "json list"
  | JDict "(string \<times> json) list"

datatype exn =
    JSONDecodeError
  | UnicodeDecodeError
  | KeyError string
  | OSError
  | TypeError
  | AttributeError
  | OverflowError
  | RuntimeError string

text \<open>The content of a file: bytes that are not UTF-8, text that is not JSON, or a JSON
  document (\<^verbatim>\<open>json.dump\<close> writes it, \<^verbatim>\<open>json.load\<close> reads it back).\<close>

datatype content = NotUtf8 | NotJson | Json json

type_synonym registry = "(string \<times> content) list"

text \<open>What \<^verbatim>\<open>os.kill(pid, 0)\<close> does: it returns, or raises \<open>ProcessLookupError\<close>,
  \<open>PermissionError\<close> (both are \<open>OSError\<close>s) or \<open>OverflowError\<close>.\<close>

datatype kill_outcome = Signalled | NoSuchProcess | NotPermitted | PidOutOfRange

record env =
  time_time :: real
  os_getpid :: int
  os_kill :: "int \<Rightarrow> kill_outcome"
  socket_bind :: "string \<Rightarrow> int \<Rightarrow> bool"
  unicode_lower :: "string \<Rightarrow> string"

definition PORT_RANGE_START :: int where
  "PORT_RANGE_START = 13337"

definition PORT_RANGE_END :: int where
  "PORT_RANGE_END = 13437"

definition STALE_TIMEOUT :: real where
  "STALE_TIMEOUT = 60"

definition and_then :: "exn + 'a \<Rightarrow> ('a \<Rightarrow> exn + 'b) \<Rightarrow> exn + 'b" where
  "and_then r f = (case r of Inl e \<Rightarrow> Inl e | Inr v \<Rightarrow> f v)"

text \<open>\<^verbatim>\<open>data[key]\<close>, \<^verbatim>\<open>data.get(key, default)\<close> and \<^verbatim>\<open>data[key] = value\<close>.\<close>

fun getitem :: "json \<Rightarrow> string \<Rightarrow> exn + json" where
  "getitem (JDict kvs) k = (case map_of kvs k of None \<Rightarrow> Inl (KeyError k) | Some v \<Rightarrow> Inr v)"
| "getitem _ k = Inl TypeError"

fun dict_get :: "json \<Rightarrow> string \<Rightarrow> json \<Rightarrow> exn + json" where
  "dict_get (JDict kvs) k dflt = (case map_of kvs k of None \<Rightarrow> Inr dflt | Some v \<Rightarrow> Inr v)"
| "dict_get _ k dflt = Inl AttributeError"

fun setitem :: "json \<Rightarrow> string \<Rightarrow> json \<Rightarrow> exn + json" where
  "setitem (JDict kvs) k v = Inr (JDict (AList.update k v kvs))"
| "setitem _ k v = Inl TypeError"

text \<open>\<^verbatim>\<open>t - x\<close> for a float \<open>t\<close>: an \<^verbatim>\<open>int\<close> is converted to a double first, which
  raises \<open>OverflowError\<close> when it rounds to a value beyond the largest double. Then an
  integer where the C API wants one, and \<^verbatim>\<open>x.lower()\<close>.\<close>

definition DBL_OVERFLOW :: int where
  "DBL_OVERFLOW = 2 ^ 1024 - 2 ^ 970"

fun float_sub :: "real \<Rightarrow> json \<Rightarrow> exn + real" where
  "float_sub t (JInt i) =
     (if \<bar>i\<bar> \<ge> DBL_OVERFLOW then Inl OverflowError else Inr (t - of_int i))"
| "float_sub t (JFloat r) = Inr (t - r)"
| "float_sub t (JBool b) = Inr (t - (if b then 1 else 0))"
| "float_sub t _ = Inl TypeError"

fun as_integer :: "json \<Rightarrow> exn + int" where
  "as_integer (JInt i) = Inr i"
| "as_integer (JBool b) = Inr (if b then 1 else 0)"
| "as_integer _ = Inl TypeError"





text \<open>\<^verbatim>\<open>str(n)\<close> of an integer, for the f-string of \<open>find_available_port\<close>.\<close>

fun str_nat :: "nat \<Rightarrow> string" where
  "str_nat n =
     (if n < 10 then [''0123456789'' ! n]
      else str_nat (n div 10) @ [''0123456789'' ! (n mod 10)])"

definition str_int :: "int \<Rightarrow> string" where
  "str_int i = (if i < 0 then CHR ''-'' # str_nat (nat (- i)) else str_nat (nat i))"

subsection \<open>InstanceInfo\<close>

record InstanceInfo =
  instance_id :: json
  host :: json
  port :: json
  binary_name :: json
  binary_path :: json
  pid :: json
  timestamp :: json

definition to_dict :: "InstanceInfo \<Rightarrow> json" where
  "to_dict self = JDict
     [(''instance_id'', instance_id self),
      (''host'', host self),
      (''port'', port self),
      (''binary_name'', binary_name self),
      (''binary_path'', binary_path self),
      (''pid'', pid self),
      (''timestamp'', timestamp self)]"

definition from_dict :: "json \<Rightarrow> exn + InstanceInfo" where
  "from_dict data =
     and_then (getitem data ''instance_id'') (\<lambda>v_id.
     and_then (getitem data ''host'') (\<lambda>v_host.
     and_then (getitem data ''port'') (\<lambda>v_port.
     and_then (getitem data ''binary_name'') (\<lambda>v_name.
     and_then (dict_get data ''binary_path'' (JStr '''')) (\<lambda>v_path.
     and_then (getitem data ''pid'') (\<lambda>v_pid.
     and_then (getitem data ''timestamp'') (\<lambda>v_ts.
       Inr \<lparr>instance_id = v_id, host = v_host, port = v_port, binary_name = v_name,
            binary_path = v_path, pid = v_pid, timestamp = v_ts\<rparr>)))))))"

definition is_stale :: "env \<Rightarrow> InstanceInfo \<Rightarrow> exn + bool" where
  "is_stale e self =
     and_then (float_sub (time_time e) (timestamp self)) (\<lambda>d. Inr (d > STALE_TIMEOUT))"

definition is_alive :: "env \<Rightarrow> InstanceInfo \<Rightarrow> exn + bool" where
  "is_alive e self =
     and_then (as_integer (pid self)) (\<lambda>p.
       case os_kill e p of
         Signalled \<Rightarrow> Inr True
       | NoSuchProcess \<Rightarrow> Inr False
       | NotPermitted \<Rightarrow> Inr False
       | PidOutOfRange \<Rightarrow> Inl OverflowError)"

subsection \<open>Files of the registry directory\<close>

text \<open>\<^verbatim>\<open>filepath.exists()\<close>; \<^verbatim>\<open>open(filepath, "r")\<close> followed by \<^verbatim>\<open>json.load\<close>;
  \<^verbatim>\<open>open(filepath, "w")\<close> followed by \<^verbatim>\<open>json.dump\<close>; \<^verbatim>\<open>filepath.unlink(missing_ok)\<close>.\<close>

definition file_exists :: "string \<Rightarrow> registry \<Rightarrow> bool" where
  "file_exists filepath fs = (map_of fs filepath \<noteq> None)"

definition read_json :: "string \<Rightarrow> registry \<Rightarrow> exn + json" where
  "read_json filepath fs =
     (case map_of fs filepath of
        None \<Rightarrow> Inl OSError
      | Some NotUtf8 \<Rightarrow> Inl UnicodeDecodeError
      | Some NotJson \<Rightarrow> Inl JSONDecodeError
      | Some (Json data) \<Rightarrow> Inr data)"

definition write_json :: "string \<Rightarrow> json \<Rightarrow> registry \<Rightarrow> registry" where
  "write_json filepath data fs = AList.update filepath (Json data) fs"

definition unlink :: "bool \<Rightarrow> string \<Rightarrow> registry \<Rightarrow> exn + registry" where
  "unlink missing_ok filepath fs =
     (if file_exists filepath fs then Inr (AList.delete filepath fs)
      else if missing_ok then Inr fs
      else Inl OSError)"

text \<open>\<^verbatim>\<open>except (json.JSONDecodeError, KeyError, OSError)\<close>.\<close>

fun handled :: "exn \<Rightarrow> bool" where
  "handled JSONDecodeError = True"
| "handled (KeyError k) = True"
| "handled OSError = True"
| "handled _ = False"

subsection \<open>The operations\<close>

text \<open>\<^verbatim>\<open>register_instance\<close>: the record is built from the arguments, \<^verbatim>\<open>os.getpid()\<close> and
  \<^verbatim>\<open>time.time()\<close>, and written to the file of the id.\<close>

definition register_instance ::
  "env \<Rightarrow> string \<Rightarrow> string \<Rightarrow> int \<Rightarrow> string \<Rightarrow> string \<Rightarrow> registry
     \<Rightarrow> (exn + InstanceInfo) \<times> registry" where
  "register_instance e iid h p bname bpath fs =
     (let info = \<lparr>instance_id = JStr iid, host = JStr h, port = JInt p,
                  binary_name = JStr bname, binary_path = JStr bpath,
                  pid = JInt (os_getpid e), timestamp = JFloat (time_time e)\<rparr>
      in (Inr info, write_json iid (to_dict info) fs))"

definition unregister_instance :: "string \<Rightarrow> registry \<Rightarrow> (exn + bool) \<times> registry" where
  "unregister_instance iid fs =
     (case unlink True iid fs of
        Inr fs' \<Rightarrow> (Inr True, fs')
      | Inl err \<Rightarrow> if err = OSError then (Inr False, fs) else (Inl err, fs))"

definition refresh_instance :: "env \<Rightarrow> string \<Rightarrow> registry \<Rightarrow> (exn + bool) \<times> registry" where
  "refresh_instance e iid fs =
     (if \<not> file_exists iid fs then (Inr False, fs)
      else
        case and_then (read_json iid fs)
               (\<lambda>data. setitem data ''timestamp'' (JFloat (time_time e))) of
          Inr data' \<Rightarrow> (Inr True, write_json iid data' fs)
        | Inl err \<Rightarrow> if handled err then (Inr False, fs) else (Inl err, fs))"

text \<open>\<^verbatim>\<open>info.is_stale() and not info.is_alive()\<close>, evaluated left to right.\<close>

definition stale_and_dead :: "env \<Rightarrow> InstanceInfo \<Rightarrow> exn + bool" where
  "stale_and_dead e info =
     and_then (is_stale e info) (\<lambda>s.
       if s then and_then (is_alive e info) (\<lambda>a. Inr (\<not> a)) else Inr False)"

text \<open>\<^verbatim>\<open>list_instances\<close>. \<open>list_try\<close> is the body of the \<^verbatim>\<open>try\<close> for one file: \<open>None\<close> is
  \<^verbatim>\<open>continue\<close>, \<open>Some info\<close> is \<^verbatim>\<open>instances.append(info)\<close>. \<open>list_step\<close> adds the
  \<^verbatim>\<open>except\<close> clause, \<open>list_loop\<close> is the \<^verbatim>\<open>for\<close> over the files that \<^verbatim>\<open>glob\<close> found.\<close>

definition list_try ::
  "env \<Rightarrow> bool \<Rightarrow> string \<Rightarrow> registry \<Rightarrow> (exn + InstanceInfo option) \<times> registry" where
  "list_try e include_stale filepath fs =
     (case and_then (read_json filepath fs) from_dict of
        Inl err \<Rightarrow> (Inl err, fs)
      | Inr info \<Rightarrow>
          (case (if include_stale then Inr False else stale_and_dead e info) of
             Inl err \<Rightarrow> (Inl err, fs)
           | Inr True \<Rightarrow>
               (case unlink True filepath fs of
                  Inl err \<Rightarrow> (Inl err, fs)
                | Inr fs' \<Rightarrow> (Inr None, fs'))
           | Inr False \<Rightarrow> (Inr (Some info), fs)))"

definition list_step ::
  "env \<Rightarrow> bool \<Rightarrow> string \<Rightarrow> registry \<Rightarrow> (exn + InstanceInfo option) \<times> registry" where
  "list_step e include_stale filepath fs =
     (case list_try e include_stale filepath fs of
        (Inr r, fs1) \<Rightarrow> (Inr r, fs1)
      | (Inl err, fs1) \<Rightarrow>
          if handled err then
            (case unlink True filepath fs1 of
               Inr fs2 \<Rightarrow> (Inr None, fs2)
             | Inl err2 \<Rightarrow> if err2 = OSError then (Inr None, fs1) else (Inl err2, fs1))
          else (Inl err, fs1))"

fun list_loop ::
  "env \<Rightarrow> bool \<Rightarrow> string list \<Rightarrow> InstanceInfo list \<Rightarrow> registry
     \<Rightarrow> (exn + InstanceInfo list) \<times> registry" where
  "list_loop e include_stale [] instances fs = (Inr instances, fs)"
| "list_loop e include_stale (filepath # rest) instances fs =
     (case list_step e include_stale filepath fs of
        (Inl err, fs1) \<Rightarrow> (Inl err, fs1)
      | (Inr None, fs1) \<Rightarrow> list_loop e include_stale rest instances fs1
      | (Inr (Some info), fs1) \<Rightarrow> list_loop e include_stale rest (instances @ [info]) fs1)"

definition list_instances ::
  "env \<Rightarrow> bool \<Rightarrow> registry \<Rightarrow> (exn + InstanceInfo list) \<times> registry" where
  "list_instances e include_stale fs = list_loop e include_stale (map fst fs) [] fs"



definition find_instance_by_id ::
  "string \<Rightarrow> registry \<Rightarrow> (exn + InstanceInfo option) \<times> registry" where
  "find_instance_by_id iid fs =
     (if \<not> file_exists iid fs then (Inr None, fs)
      else
        case and_then (read_json iid fs) from_dict of
          Inr info \<Rightarrow> (Inr (Some info), fs)
        | Inl err \<Rightarrow> if handled err then (Inr None, fs) else (Inl err, fs))"

text \<open>\<^verbatim>\<open>cleanup_stale_instances\<close>: one file, then the loop with its counter.\<close>

definition cleanup_step ::
  "env \<Rightarrow> string \<Rightarrow> nat \<Rightarrow> registry \<Rightarrow> (exn + nat) \<times> registry" where
  "cleanup_step e filepath removed fs =
     (case and_then (and_then (read_json filepath fs) from_dict) (stale_and_dead e) of
        Inr True \<Rightarrow>
          (case unlink True filepath fs of
             Inr fs' \<Rightarrow> (Inr (removed + 1), fs')
           | Inl err \<Rightarrow>
               if handled err then
                 (case unlink True filepath fs of
                    Inr fs2 \<Rightarrow> (Inr (removed + 1), fs2)
                  | Inl err2 \<Rightarrow> if err2 = OSError then (Inr removed, fs) else (Inl err2, fs))
               else (Inl err, fs))
      | Inr False \<Rightarrow> (Inr removed, fs)
      | Inl err \<Rightarrow>
          if handled err then
            (case unlink True filepath fs of
               Inr fs2 \<Rightarrow> (Inr (removed + 1), fs2)
             | Inl err2 \<Rightarrow> if err2 = OSError then (Inr removed, fs) else (Inl err2, fs))
          else (Inl err, fs))"

fun cleanup_loop ::
  "env \<Rightarrow> string list \<Rightarrow> nat \<Rightarrow> registry \<Rightarrow> (exn + nat) \<times> registry" where
  "cleanup_loop e [] removed fs = (Inr removed, fs)"
| "cleanup_loop e (filepath # rest) removed fs =
     (case cleanup_step e filepath removed fs of
        (Inl err, fs1) \<Rightarrow> (Inl err, fs1)
      | (Inr removed1, fs1) \<Rightarrow> cleanup_loop e rest removed1 fs1)"

definition cleanup_stale_instances :: "env \<Rightarrow> registry \<Rightarrow> (exn + nat) \<times> registry" where
  "cleanup_stale_instances e fs = cleanup_loop e (map fst fs) 0 fs"

text \<open>\<^verbatim>\<open>find_available_port\<close>. The set comprehension needs hashable ports; \<^verbatim>\<open>port in
  registered_ports\<close> compares an \<^verbatim>\<open>int\<close> with the members by Python's \<^verbatim>\<open>==\<close>. A
  candidate is taken when the \<^verbatim>\<open>with socket\<close> block binds it; an \<open>OSError\<close> there
  moves on to the next candidate.\<close>

fun hashable :: "json \<Rightarrow> bool" where
  "hashable (JList xs) = False"
| "hashable (JDict kvs) = False"
| "hashable _ = True"

fun port_set :: "InstanceInfo list \<Rightarrow> exn + json list" where
  "port_set [] = Inr []"
| "port_set (inst # rest) =
     (if hashable (port inst) then and_then (port_set rest) (\<lambda>s. Inr (port inst # s))
      else Inl TypeError)"

fun int_eq :: "int \<Rightarrow> json \<Rightarrow> bool" where
  "int_eq p (JInt i) = (p = i)"
| "int_eq p (JFloat r) = (of_int p = r)"
| "int_eq p (JBool b) = (p = (if b then 1 else 0))"
| "int_eq p _ = False"

definition port_in :: "int \<Rightarrow> json list \<Rightarrow> bool" where
  "port_in p registered_ports = list_ex (int_eq p) registered_ports"

definition no_ports_message :: string where
  "no_ports_message =
     ''No available ports in range '' @ str_int PORT_RANGE_START @ ''-'' @ str_int PORT_RANGE_END"

fun port_scan :: "env \<Rightarrow> string \<Rightarrow> json list \<Rightarrow> int list \<Rightarrow> exn + int" where
  "port_scan e h registered_ports [] = Inl (RuntimeError no_ports_message)"
| "port_scan e h registered_ports (p # rest) =
     (if port_in p registered_ports then port_scan e h registered_ports rest
      else if socket_bind e h p then Inr p
      else port_scan e h registered_ports rest)"

definition find_available_port :: "env \<Rightarrow> string \<Rightarrow> registry \<Rightarrow> (exn + int) \<times> registry" where
  "find_available_port e h fs =
     (case list_instances e False fs of
        (Inl err, fs') \<Rightarrow> (Inl err, fs')
      | (Inr instances, fs') \<Rightarrow>
          (and_then (port_set instances)
             (\<lambda>registered_ports.
                port_scan e h registered_ports [PORT_RANGE_START..PORT_RANGE_END - 1]),
           fs'))"

subsection \<open>What the scans do with one file\<close>

text \<open>The result of \<open>list_step\<close> on a file depends on the content of that file alone;
  \<open>verdict\<close> names it, by running the step on a directory that holds this one file
  (or nothing, for a file that has disappeared). \<open>Inr None\<close> is the verdict of a file
  that the step removes.\<close>

definition verdict :: "env \<Rightarrow> bool \<Rightarrow> content option \<Rightarrow> exn + InstanceInfo option" where
  "verdict e include_stale c =
     fst (list_step e include_stale [] (case c of None \<Rightarrow> [] | Some x \<Rightarrow> [([], x)]))"

definition kept :: "env \<Rightarrow> bool \<Rightarrow> content option \<Rightarrow> InstanceInfo list" where
  "kept e include_stale c =
     (case verdict e include_stale c of Inr (Some info) \<Rightarrow> [info] | _ \<Rightarrow> [])"



subsection \<open>Corrupt files and caseless names, in the words of the specification\<close>

text \<open>The keys that \<open>from_dict\<close> reads with \<^verbatim>\<open>data[key]\<close> are the required fields of a
  record; \<open>binary_path\<close> is read with a default. A corrupt file is one whose text is not
  JSON, or a JSON object that lacks a required field.\<close>

definition required_keys :: "string list" where
  "required_keys = [''instance_id'', ''host'', ''port'', ''binary_name'', ''pid'', ''timestamp'']"

definition lacks_required_key :: "(string \<times> json) list \<Rightarrow> bool" where
  "lacks_required_key kvs = list_ex (\<lambda>k. map_of kvs k = None) required_keys"






subsection \<open>An environment for the examples\<close>

text \<open>The clock reads \<open>t\<close>, the calling process is \<open>p\<close> and is the only process that
  \<^verbatim>\<open>os.kill\<close> finds, and every port but 13338 can be bound. The examples are ASCII,
  so the Unicode table is not consulted.\<close>

definition env_at :: "real \<Rightarrow> int \<Rightarrow> env" where
  "env_at t p =
     \<lparr>time_time = t, os_getpid = p,
      os_kill = (\<lambda>q. if q = p then Signalled else NoSuchProcess),
      socket_bind = (\<lambda>h q. q \<noteq> 13338),
      unicode_lower = (\<lambda>s. s)\<rparr>"

text \<open>The record of an instance \<open>iid\<close> on port \<open>p\<close> that analyses \<open>bname\<close>, owned by
  process \<open>owner\<close>, with its last heartbeat at \<open>t\<close>.\<close>

definition example_info :: "string \<Rightarrow> int \<Rightarrow> string \<Rightarrow> int \<Rightarrow> real \<Rightarrow> InstanceInfo" where
  "example_info iid p bname owner t =
     \<lparr>instance_id = JStr iid, host = JStr ''127.0.0.1'', port = JInt p,
      binary_name = JStr bname, binary_path = JStr [],
      pid = JInt owner, timestamp = JFloat t\<rparr>"

text \<open>A directory with a stale record of a dead process, a stale record of the live
  process 7, a fresh record of a dead process and a file that is not JSON.\<close>

definition example_registry :: registry where
  "example_registry =
     [(''dead'', Json (to_dict (example_info ''dead'' 13337 ''old.exe'' 999 0))),
      (''asleep'', Json (to_dict (example_info ''asleep'' 13338 ''Sleepy.EXE'' 7 0))),
      (''fresh'', Json (to_dict (example_info ''fresh'' 13339 ''MyBinary.EXE'' 999 990))),
      (''bad'', NotJson)]"


section \<open>Properties\<close>

subsection \<open>One file at a time\<close>

lemma and_then_simps [simp]:
  "and_then (Inl err) f = Inl err" "and_then (Inr v) f = f v"
  by (simp_all add: and_then_def)

lemma unlink_True: "unlink True n fs = Inr (AList.delete n fs)"
  by (auto simp: unlink_def file_exists_def map_of_eq_None_iff)

lemma stale_and_dead_not_handled: "stale_and_dead e info = Inl err \<Longrightarrow> \<not> handled err"
  by (cases "timestamp info"; cases "pid info"; cases "os_kill e (case pid info of JInt i \<Rightarrow> i | JBool b \<Rightarrow> if b then 1 else 0)")
     (auto simp: stale_and_dead_def is_stale_def is_alive_def split: if_splits kill_outcome.splits)

lemma verdict_None: "verdict e inc None = Inr None"
  by (simp add: verdict_def list_step_def list_try_def read_json_def unlink_True)

lemma verdict_NotJson: "verdict e inc (Some NotJson) = Inr None"
  by (simp add: verdict_def list_step_def list_try_def read_json_def unlink_True)

lemma verdict_NotUtf8: "verdict e inc (Some NotUtf8) = Inl UnicodeDecodeError"
  by (simp add: verdict_def list_step_def list_try_def read_json_def unlink_True)

lemma verdict_Json:
  "verdict e inc (Some (Json d)) =
     (case from_dict d of
        Inl err \<Rightarrow> if handled err then Inr None else Inl err
      | Inr info \<Rightarrow>
          (case (if inc then Inr False else stale_and_dead e info) of
             Inl err \<Rightarrow> Inl err
           | Inr True \<Rightarrow> Inr None
           | Inr False \<Rightarrow> Inr (Some info)))"
  by (auto simp: verdict_def list_step_def list_try_def read_json_def unlink_True
           split: sum.splits bool.splits dest: stale_and_dead_not_handled)

lemma list_step_verdict:
  "list_step e inc n fs =
     (verdict e inc (map_of fs n),
      if verdict e inc (map_of fs n) = Inr None then AList.delete n fs else fs)"
proof (cases "map_of fs n")
  case None
  then show ?thesis
    by (simp add: verdict_None list_step_def list_try_def read_json_def unlink_True)
next
  case (Some c)
  show ?thesis
  proof (cases c)
    case NotUtf8
    with Some show ?thesis
      by (simp add: verdict_NotUtf8 list_step_def list_try_def read_json_def)
  next
    case NotJson
    with Some show ?thesis
      by (simp add: verdict_NotJson list_step_def list_try_def read_json_def unlink_True)
  next
    case (Json d)
    with Some show ?thesis
      by (auto simp: verdict_Json list_step_def list_try_def read_json_def unlink_True
               split: sum.splits bool.splits dest: stale_and_dead_not_handled)
  qed
qed

lemma cleanup_step_verdict:
  "cleanup_step e n k fs =
     (case verdict e False (map_of fs n) of
        Inl err \<Rightarrow> (Inl err, fs)
      | Inr None \<Rightarrow> (Inr (k + 1), AList.delete n fs)
      | Inr (Some info) \<Rightarrow> (Inr k, fs))"
proof (cases "map_of fs n")
  case None
  then show ?thesis
    by (simp add: verdict_None cleanup_step_def read_json_def unlink_True)
next
  case (Some c)
  show ?thesis
  proof (cases c)
    case NotUtf8
    with Some show ?thesis
      by (simp add: verdict_NotUtf8 cleanup_step_def read_json_def)
  next
    case NotJson
    with Some show ?thesis
      by (simp add: verdict_NotJson cleanup_step_def read_json_def unlink_True)
  next
    case (Json d)
    with Some show ?thesis
      by (auto simp: verdict_Json cleanup_step_def read_json_def unlink_True
               split: sum.splits bool.splits dest: stale_and_dead_not_handled)
  qed
qed


lemma verdict_delete:
  "verdict e inc (map_of fs n) = Inr None \<Longrightarrow>
   verdict e inc (map_of (AList.delete n fs) m) = verdict e inc (map_of fs m)"
  by (cases "m = n") (simp_all add: delete_conv' verdict_None)

lemma kept_delete:
  "verdict e inc (map_of fs n) = Inr None \<Longrightarrow>
   kept e inc (map_of (AList.delete n fs) m) = kept e inc (map_of fs m)"
  by (simp add: kept_def verdict_delete)

lemma list_loop_result:
  "list_loop e inc ns acc fs = (Inr res, fs') \<Longrightarrow>
     res = acc @ concat (map (\<lambda>n. kept e inc (map_of fs n)) ns) \<and>
     (\<forall>m. map_of fs' m =
        (if m \<in> set ns \<and> verdict e inc (map_of fs m) = Inr None then None else map_of fs m)) \<and>
     (\<forall>m\<in>set ns. \<forall>err. verdict e inc (map_of fs m) \<noteq> Inl err)"
proof (induction ns arbitrary: acc fs)
  case Nil
  then show ?case by simp
next
  case (Cons n ns)
  show ?case
  proof (cases "verdict e inc (map_of fs n)")
    case (Inl err)
    with Cons.prems show ?thesis by (simp add: list_step_verdict)
  next
    case (Inr r)
    show ?thesis
    proof (cases r)
      case None
      with Inr have v: "verdict e inc (map_of fs n) = Inr None" by simp
      with Cons.prems have "list_loop e inc ns acc (AList.delete n fs) = (Inr res, fs')"
        by (simp add: list_step_verdict)
      note IH = Cons.IH [OF this, unfolded verdict_delete [OF v] kept_delete [OF v]]
      have k: "kept e inc (map_of fs n) = []" using v by (simp add: kept_def)
      from IH v k show ?thesis
        by (auto simp: delete_conv')
    next
      case (Some info)
      with Inr have v: "verdict e inc (map_of fs n) = Inr (Some info)" by simp
      with Cons.prems have "list_loop e inc ns (acc @ [info]) fs = (Inr res, fs')"
        by (simp add: list_step_verdict)
      from Cons.IH [OF this] v show ?thesis
        by (auto simp: kept_def)
    qed
  qed
qed

lemma list_loop_returns:
  "\<forall>m\<in>set ns. \<forall>err. verdict e inc (map_of fs m) \<noteq> Inl err \<Longrightarrow>
   \<exists>res fs'. list_loop e inc ns acc fs = (Inr res, fs')"
proof (induction ns arbitrary: acc fs)
  case Nil
  then show ?case by simp
next
  case (Cons n ns)
  show ?case
  proof (cases "verdict e inc (map_of fs n)")
    case (Inl err)
    with Cons.prems show ?thesis by simp
  next
    case (Inr r)
    show ?thesis
    proof (cases r)
      case None
      with Inr have v: "verdict e inc (map_of fs n) = Inr None" by simp
      from Cons.prems v
      have "\<forall>m\<in>set ns. \<forall>err. verdict e inc (map_of (AList.delete n fs) m) \<noteq> Inl err"
        by (simp add: verdict_delete)
      from Cons.IH [OF this] v show ?thesis
        by (simp add: list_step_verdict)
    next
      case (Some info)
      with Inr have v: "verdict e inc (map_of fs n) = Inr (Some info)" by simp
      from Cons.prems
      have "\<forall>m\<in>set ns. \<forall>err. verdict e inc (map_of fs m) \<noteq> Inl err" by simp
      from Cons.IH [OF this] v show ?thesis
        by (simp add: list_step_verdict)
    qed
  qed
qed

lemma cleanup_loop_result:
  "cleanup_loop e ns k fs = (Inr k', fs') \<Longrightarrow>
     k' = k + length (filter (\<lambda>n. verdict e False (map_of fs n) = Inr None) ns) \<and>
     (\<forall>m. map_of fs' m =
        (if m \<in> set ns \<and> verdict e False (map_of fs m) = Inr None then None else map_of fs m)) \<and>
     (\<forall>m\<in>set ns. \<forall>err. verdict e False (map_of fs m) \<noteq> Inl err)"
proof (induction ns arbitrary: k fs)
  case Nil
  then show ?case by simp
next
  case (Cons n ns)
  show ?case
  proof (cases "verdict e False (map_of fs n)")
    case (Inl err)
    with Cons.prems show ?thesis by (simp add: cleanup_step_verdict)
  next
    case (Inr r)
    show ?thesis
    proof (cases r)
      case None
      with Inr have v: "verdict e False (map_of fs n) = Inr None" by simp
      with Cons.prems have "cleanup_loop e ns (k + 1) (AList.delete n fs) = (Inr k', fs')"
        by (simp add: cleanup_step_verdict)
      note IH = Cons.IH [OF this, unfolded verdict_delete [OF v]]
      from IH v show ?thesis
        by (auto simp: delete_conv')
    next
      case (Some info)
      with Inr have v: "verdict e False (map_of fs n) = Inr (Some info)" by simp
      with Cons.prems have "cleanup_loop e ns k fs = (Inr k', fs')"
        by (simp add: cleanup_step_verdict)
      from Cons.IH [OF this] v show ?thesis
        by auto
    qed
  qed
qed

lemma cleanup_loop_returns:
  "\<forall>m\<in>set ns. \<forall>err. verdict e False (map_of fs m) \<noteq> Inl err \<Longrightarrow>
   \<exists>k' fs'. cleanup_loop e ns k fs = (Inr k', fs')"
proof (induction ns arbitrary: k fs)
  case Nil
  then show ?case by simp
next
  case (Cons n ns)
  show ?case
  proof (cases "verdict e False (map_of fs n)")
    case (Inl err)
    with Cons.prems show ?thesis by simp
  next
    case (Inr r)
    show ?thesis
    proof (cases r)
      case None
      with Inr have v: "verdict e False (map_of fs n) = Inr None" by simp
      from Cons.prems v
      have "\<forall>m\<in>set ns. \<forall>err. verdict e False (map_of (AList.delete n fs) m) \<noteq> Inl err"
        by (simp add: verdict_delete)
      from Cons.IH [OF this] v show ?thesis
        by (simp add: cleanup_step_verdict)
    next
      case (Some info)
      with Inr have v: "verdict e False (map_of fs n) = Inr (Some info)" by simp
      from Cons.prems
      have "\<forall>m\<in>set ns. \<forall>err. verdict e False (map_of fs m) \<noteq> Inl err" by simp
      from Cons.IH [OF this] v show ?thesis
        by (simp add: cleanup_step_verdict)
    qed
  qed
qed

subsection \<open>Reading and writing one record\<close>

lemma from_dict_to_dict: "from_dict (to_dict info) = Inr info"
  by (simp add: from_dict_def to_dict_def)

lemma from_dict_JDict: "from_dict d = Inr info \<Longrightarrow> \<exists>kvs. d = JDict kvs"
  by (cases d) (simp_all add: from_dict_def)

lemma find_instance_by_id_Some:
  "fst (find_instance_by_id iid fs) = Inr (Some info) \<longleftrightarrow>
     (\<exists>d. map_of fs iid = Some (Json d) \<and> from_dict d = Inr info)"
  by (auto simp: find_instance_by_id_def file_exists_def read_json_def
           split: option.splits content.splits sum.splits)

lemma find_instance_by_id_write:
  "find_instance_by_id iid (write_json iid d fs) =
     (case from_dict d of
        Inr info \<Rightarrow> (Inr (Some info), write_json iid d fs)
      | Inl err \<Rightarrow> if handled err then (Inr None, write_json iid d fs)
                   else (Inl err, write_json iid d fs))"
  by (simp add: find_instance_by_id_def file_exists_def read_json_def write_json_def update_conv'
           split: sum.splits)

lemma from_dict_refresh:
  assumes "from_dict (JDict kvs) = Inr info"
  shows "from_dict (JDict (AList.update ''timestamp'' v kvs)) = Inr (info\<lparr>timestamp := v\<rparr>)"
  using assms
  by (auto simp: from_dict_def update_conv' and_then_def split: option.splits sum.splits)

lemma register_instance_eq:
  "register_instance e iid h p bn bp fs =
     (Inr \<lparr>instance_id = JStr iid, host = JStr h, port = JInt p, binary_name = JStr bn,
            binary_path = JStr bp, pid = JInt (os_getpid e), timestamp = JFloat (time_time e)\<rparr>,
      write_json iid
        (to_dict \<lparr>instance_id = JStr iid, host = JStr h, port = JInt p, binary_name = JStr bn,
            binary_path = JStr bp, pid = JInt (os_getpid e), timestamp = JFloat (time_time e)\<rparr>) fs)"
  by (simp add: register_instance_def Let_def)

lemma from_dict_lacking:
  "lacks_required_key kvs \<Longrightarrow> \<exists>k. from_dict (JDict kvs) = Inl (KeyError k)"
  by (auto simp: lacks_required_key_def required_keys_def from_dict_def and_then_def
           split: option.splits)

lemma from_dict_complete:
  "\<not> lacks_required_key kvs \<Longrightarrow> \<exists>info. from_dict (JDict kvs) = Inr info"
  by (auto simp: lacks_required_key_def required_keys_def from_dict_def and_then_def
           split: option.splits)


lemma from_dict_fields:
  "from_dict (JDict kvs) = Inr info \<Longrightarrow>
     map_of kvs ''instance_id'' = Some (instance_id info) \<and>
     map_of kvs ''host'' = Some (host info) \<and>
     map_of kvs ''port'' = Some (port info) \<and>
     map_of kvs ''binary_name'' = Some (binary_name info) \<and>
     binary_path info = (case map_of kvs ''binary_path'' of None \<Rightarrow> JStr [] | Some v \<Rightarrow> v) \<and>
     map_of kvs ''pid'' = Some (pid info) \<and>
     map_of kvs ''timestamp'' = Some (timestamp info)"
  by (auto simp: from_dict_def and_then_def split: option.splits)

subsection \<open>Unregistering\<close>

text \<open>
  Claim C9. \<open>unregister_instance\<close> on an id that has no file returns \<open>True\<close> and leaves
  the directory as it was: \<^verbatim>\<open>unlink(missing_ok=True)\<close> does not raise for a missing
  file, so deleting is idempotent.
\<close>

theorem unregister_absent_is_success:
  "\<not> file_exists iid fs \<Longrightarrow> unregister_instance iid fs = (Inr True, fs)"
  by (simp add: unregister_instance_def unlink_def)

theorem unregister_absent_is_success_witness:
  "\<not> file_exists ''ghost'' [(''a'', NotJson)] \<and>
   unregister_instance ''ghost'' [(''a'', NotJson)] = (Inr True, [(''a'', NotJson)])"
proof -
  have h: "\<not> file_exists ''ghost'' [(''a'', NotJson)]" by (simp add: file_exists_def)
  from h unregister_absent_is_success [OF h] show ?thesis by simp
qed

subsection \<open>Looking a record up by its id\<close>

text \<open>
  Claim C2, as amended. \<open>find_instance_by_id\<close> never changes the directory. It returns
  \<open>None\<close>, and raises nothing, when the file of the id is missing, when its text is not
  JSON (\<open>JSONDecodeError\<close>) and when it is a JSON object that lacks one of the required
  keys \<open>instance_id\<close>, \<open>host\<close>, \<open>port\<close>, \<open>binary_name\<close>, \<open>pid\<close>, \<open>timestamp\<close>. For a
  JSON object with all of these keys it returns the record that holds their values. The
  file of a corrupt record stays where it is.
\<close>

theorem find_instance_by_id_reads_only:
  "snd (find_instance_by_id iid fs) = fs \<and>
   (\<not> file_exists iid fs \<longrightarrow> fst (find_instance_by_id iid fs) = Inr None) \<and>
   (map_of fs iid = Some NotJson \<longrightarrow> fst (find_instance_by_id iid fs) = Inr None) \<and>
   (\<forall>kvs. map_of fs iid = Some (Json (JDict kvs)) \<longrightarrow>
      (lacks_required_key kvs \<longrightarrow> fst (find_instance_by_id iid fs) = Inr None) \<and>
      (\<not> lacks_required_key kvs \<longrightarrow>
         (\<exists>info. fst (find_instance_by_id iid fs) = Inr (Some info) \<and>
            map_of kvs ''instance_id'' = Some (instance_id info) \<and>
            map_of kvs ''host'' = Some (host info) \<and>
            map_of kvs ''port'' = Some (port info) \<and>
            map_of kvs ''binary_name'' = Some (binary_name info) \<and>
            map_of kvs ''pid'' = Some (pid info) \<and>
            map_of kvs ''timestamp'' = Some (timestamp info))))"
proof (intro conjI impI allI)
  show "snd (find_instance_by_id iid fs) = fs"
    by (simp add: find_instance_by_id_def split: sum.splits)
  show "\<not> file_exists iid fs \<Longrightarrow> fst (find_instance_by_id iid fs) = Inr None"
    by (simp add: find_instance_by_id_def)
  show "map_of fs iid = Some NotJson \<Longrightarrow> fst (find_instance_by_id iid fs) = Inr None"
    by (simp add: find_instance_by_id_def file_exists_def read_json_def)
next
  fix kvs
  assume m: "map_of fs iid = Some (Json (JDict kvs))"
  then have f: "find_instance_by_id iid fs =
      (case from_dict (JDict kvs) of
         Inr info \<Rightarrow> (Inr (Some info), fs)
       | Inl err \<Rightarrow> if handled err then (Inr None, fs) else (Inl err, fs))"
    by (simp add: find_instance_by_id_def file_exists_def read_json_def)
  {
    assume "lacks_required_key kvs"
    from from_dict_lacking [OF this] obtain k where "from_dict (JDict kvs) = Inl (KeyError k)"
      by blast
    then show "fst (find_instance_by_id iid fs) = Inr None" by (simp add: f)
  }
  assume "\<not> lacks_required_key kvs"
  from from_dict_complete [OF this] obtain info where i: "from_dict (JDict kvs) = Inr info"
    by blast
  then have "fst (find_instance_by_id iid fs) = Inr (Some info)" by (simp add: f)
  with from_dict_fields [OF i]
  show "\<exists>info. fst (find_instance_by_id iid fs) = Inr (Some info) \<and>
            map_of kvs ''instance_id'' = Some (instance_id info) \<and>
            map_of kvs ''host'' = Some (host info) \<and>
            map_of kvs ''port'' = Some (port info) \<and>
            map_of kvs ''binary_name'' = Some (binary_name info) \<and>
            map_of kvs ''pid'' = Some (pid info) \<and>
            map_of kvs ''timestamp'' = Some (timestamp info)"
    by blast
qed

theorem find_instance_by_id_reads_only_witness:
  "\<not> file_exists ''ghost''
      [(''x'', NotJson), (''y'', Json (JDict [(''instance_id'', JStr ''y''), (''host'', JStr ''h'')])),
       (''z'', Json (to_dict (example_info ''z'' 13337 ''x.exe'' 7 1000)))] \<and>
   lacks_required_key [(''instance_id'', JStr ''y''), (''host'', JStr ''h'')] \<and>
   \<not> lacks_required_key
      [(''instance_id'', JStr ''z''), (''host'', JStr ''127.0.0.1''), (''port'', JInt 13337),
       (''binary_name'', JStr ''x.exe''), (''binary_path'', JStr []), (''pid'', JInt 7),
       (''timestamp'', JFloat 1000)] \<and>
   find_instance_by_id ''ghost''
      [(''x'', NotJson), (''y'', Json (JDict [(''instance_id'', JStr ''y''), (''host'', JStr ''h'')])),
       (''z'', Json (to_dict (example_info ''z'' 13337 ''x.exe'' 7 1000)))] =
     (Inr None,
      [(''x'', NotJson), (''y'', Json (JDict [(''instance_id'', JStr ''y''), (''host'', JStr ''h'')])),
       (''z'', Json (to_dict (example_info ''z'' 13337 ''x.exe'' 7 1000)))]) \<and>
   find_instance_by_id ''x''
      [(''x'', NotJson), (''y'', Json (JDict [(''instance_id'', JStr ''y''), (''host'', JStr ''h'')])),
       (''z'', Json (to_dict (example_info ''z'' 13337 ''x.exe'' 7 1000)))] =
     (Inr None,
      [(''x'', NotJson), (''y'', Json (JDict [(''instance_id'', JStr ''y''), (''host'', JStr ''h'')])),
       (''z'', Json (to_dict (example_info ''z'' 13337 ''x.exe'' 7 1000)))]) \<and>
   find_instance_by_id ''y''
      [(''x'', NotJson), (''y'', Json (JDict [(''instance_id'', JStr ''y''), (''host'', JStr ''h'')])),
       (''z'', Json (to_dict (example_info ''z'' 13337 ''x.exe'' 7 1000)))] =
     (Inr None,
      [(''x'', NotJson), (''y'', Json (JDict [(''instance_id'', JStr ''y''), (''host'', JStr ''h'')])),
       (''z'', Json (to_dict (example_info ''z'' 13337 ''x.exe'' 7 1000)))]) \<and>
   (\<exists>info. fst (find_instance_by_id ''z''
      [(''x'', NotJson), (''y'', Json (JDict [(''instance_id'', JStr ''y''), (''host'', JStr ''h'')])),
       (''z'', Json (to_dict (example_info ''z'' 13337 ''x.exe'' 7 1000)))]) = Inr (Some info) \<and>
      instance_id info = JStr ''z'' \<and> port info = JInt 13337)"
proof -
  let ?ky = "[(''instance_id'', JStr ''y''), (''host'', JStr ''h'')]"
  let ?kz = "[(''instance_id'', JStr ''z''), (''host'', JStr ''127.0.0.1''), (''port'', JInt 13337),
       (''binary_name'', JStr ''x.exe''), (''binary_path'', JStr []), (''pid'', JInt 7),
       (''timestamp'', JFloat 1000)]"
  let ?fs = "[(''x'', NotJson), (''y'', Json (JDict ?ky)),
       (''z'', Json (to_dict (example_info ''z'' 13337 ''x.exe'' 7 1000)))]"
  have h1: "\<not> file_exists ''ghost'' ?fs" by (simp add: file_exists_def)
  have h2: "map_of ?fs ''x'' = Some NotJson" by simp
  have h3: "map_of ?fs ''y'' = Some (Json (JDict ?ky))" by simp
  have h4: "lacks_required_key ?ky" by (simp add: lacks_required_key_def required_keys_def)
  have h5: "map_of ?fs ''z'' = Some (Json (JDict ?kz))"
    by (simp add: to_dict_def example_info_def)
  have h6: "\<not> lacks_required_key ?kz" by (simp add: lacks_required_key_def required_keys_def)
  note tg = find_instance_by_id_reads_only [where iid = "''ghost''" and fs = ?fs]
  note tx = find_instance_by_id_reads_only [where iid = "''x''" and fs = ?fs]
  note ty = find_instance_by_id_reads_only [where iid = "''y''" and fs = ?fs]
  note tz = find_instance_by_id_reads_only [where iid = "''z''" and fs = ?fs]
  from tg [THEN conjunct1] tg [THEN conjunct2, THEN conjunct1, THEN mp, OF h1]
  have a: "find_instance_by_id ''ghost'' ?fs = (Inr None, ?fs)" by (simp add: prod_eq_iff)
  from tx [THEN conjunct1] tx [THEN conjunct2, THEN conjunct2, THEN conjunct1, THEN mp, OF h2]
  have b: "find_instance_by_id ''x'' ?fs = (Inr None, ?fs)" by (simp add: prod_eq_iff)
  note ky = ty [THEN conjunct2, THEN conjunct2, THEN conjunct2, THEN spec, THEN mp, OF h3]
  from ty [THEN conjunct1] ky [THEN conjunct1, THEN mp, OF h4]
  have c: "find_instance_by_id ''y'' ?fs = (Inr None, ?fs)" by (simp add: prod_eq_iff)
  note kz = tz [THEN conjunct2, THEN conjunct2, THEN conjunct2, THEN spec, THEN mp, OF h5]
  from kz [THEN conjunct2, THEN mp, OF h6]
  have d: "\<exists>info. fst (find_instance_by_id ''z'' ?fs) = Inr (Some info) \<and>
      instance_id info = JStr ''z'' \<and> port info = JInt 13337"
    by auto
  from h1 h4 h6 a b c d show ?thesis by (intro conjI)
qed

text \<open>
  Claim C2 as stated says that the read deletes the file of an unparsable record, and
  that it returns rather than raises. On a directory whose only file \<^verbatim>\<open>x.json\<close> is not
  JSON, \<open>find_instance_by_id\<close> returns \<open>None\<close> and the file is still there. On a file
  that is not UTF-8 it raises \<open>UnicodeDecodeError\<close> and the file is still there, and on a
  JSON document that is not an object it raises \<open>TypeError\<close>: the \<^verbatim>\<open>except\<close> clause
  names neither exception.
\<close>

theorem find_instance_by_id_corrupt_file_counterexample:
  "fst (find_instance_by_id ''x'' [(''x'', NotJson)]) = Inr None \<and>
   file_exists ''x'' (snd (find_instance_by_id ''x'' [(''x'', NotJson)])) \<and>
   fst (find_instance_by_id ''x'' [(''x'', NotUtf8)]) = Inl UnicodeDecodeError \<and>
   file_exists ''x'' (snd (find_instance_by_id ''x'' [(''x'', NotUtf8)])) \<and>
   fst (find_instance_by_id ''x'' [(''x'', Json (JList []))]) = Inl TypeError"
  by (simp add: find_instance_by_id_def file_exists_def read_json_def from_dict_def)

subsection \<open>Refreshing\<close>

text \<open>
  Claim C4. \<open>refresh_instance\<close> returns \<open>False\<close>, raising nothing and changing nothing,
  when the id has no file. When the file holds a record (\<open>find_instance_by_id\<close> reads
  \<open>info\<close> from it), the call returns \<open>True\<close>, the record read afterwards is \<open>info\<close>
  with the timestamp set to the clock reading, so that \<open>instance_id\<close>, \<open>host\<close>,
  \<open>port\<close>, \<open>binary_name\<close>, \<open>binary_path\<close> and \<open>pid\<close> are what they were, and no other
  file of the directory changes.
\<close>

theorem refresh_instance_touches_timestamp_only:
  "(\<not> file_exists iid fs \<longrightarrow> refresh_instance e iid fs = (Inr False, fs)) \<and>
   (fst (find_instance_by_id iid fs) = Inr (Some info) \<longrightarrow>
      fst (refresh_instance e iid fs) = Inr True \<and>
      (\<exists>info'. fst (find_instance_by_id iid (snd (refresh_instance e iid fs))) = Inr (Some info') \<and>
         info' = info\<lparr>timestamp := JFloat (time_time e)\<rparr> \<and>
         instance_id info' = instance_id info \<and> host info' = host info \<and>
         port info' = port info \<and> binary_name info' = binary_name info \<and>
         binary_path info' = binary_path info \<and> pid info' = pid info) \<and>
      (\<forall>other. other \<noteq> iid \<longrightarrow>
         map_of (snd (refresh_instance e iid fs)) other = map_of fs other))"
proof (intro conjI impI)
  assume "\<not> file_exists iid fs"
  then show "refresh_instance e iid fs = (Inr False, fs)"
    by (simp add: refresh_instance_def)
next
  assume "fst (find_instance_by_id iid fs) = Inr (Some info)"
  then obtain d where d: "map_of fs iid = Some (Json d)" "from_dict d = Inr info"
    by (auto simp: find_instance_by_id_Some)
  then obtain kvs where kvs: "d = JDict kvs"
    using from_dict_JDict by blast
  let ?d' = "JDict (AList.update ''timestamp'' (JFloat (time_time e)) kvs)"
  have r: "refresh_instance e iid fs = (Inr True, write_json iid ?d' fs)"
    using d kvs by (simp add: refresh_instance_def file_exists_def read_json_def)
  have f: "from_dict ?d' = Inr (info\<lparr>timestamp := JFloat (time_time e)\<rparr>)"
    using d kvs by (simp add: from_dict_refresh)
  show "fst (refresh_instance e iid fs) = Inr True"
    by (simp add: r)
  show "\<exists>info'. fst (find_instance_by_id iid (snd (refresh_instance e iid fs))) = Inr (Some info') \<and>
         info' = info\<lparr>timestamp := JFloat (time_time e)\<rparr> \<and>
         instance_id info' = instance_id info \<and> host info' = host info \<and>
         port info' = port info \<and> binary_name info' = binary_name info \<and>
         binary_path info' = binary_path info \<and> pid info' = pid info"
    by (simp add: r find_instance_by_id_write f)
  show "\<forall>other. other \<noteq> iid \<longrightarrow>
         map_of (snd (refresh_instance e iid fs)) other = map_of fs other"
    by (simp add: r write_json_def update_conv')
qed

theorem refresh_instance_touches_timestamp_only_witness:
  "\<not> file_exists ''ghost'' [(''a'', Json (to_dict (example_info ''a'' 13337 ''x.exe'' 7 1000))), (''b'', NotJson)] \<and>
   refresh_instance (env_at 1500 7) ''ghost''
      [(''a'', Json (to_dict (example_info ''a'' 13337 ''x.exe'' 7 1000))), (''b'', NotJson)] =
     (Inr False, [(''a'', Json (to_dict (example_info ''a'' 13337 ''x.exe'' 7 1000))), (''b'', NotJson)]) \<and>
   fst (find_instance_by_id ''a''
      [(''a'', Json (to_dict (example_info ''a'' 13337 ''x.exe'' 7 1000))), (''b'', NotJson)]) =
     Inr (Some (example_info ''a'' 13337 ''x.exe'' 7 1000)) \<and>
   fst (refresh_instance (env_at 1500 7) ''a''
      [(''a'', Json (to_dict (example_info ''a'' 13337 ''x.exe'' 7 1000))), (''b'', NotJson)]) = Inr True \<and>
   fst (find_instance_by_id ''a'' (snd (refresh_instance (env_at 1500 7) ''a''
      [(''a'', Json (to_dict (example_info ''a'' 13337 ''x.exe'' 7 1000))), (''b'', NotJson)]))) =
     Inr (Some (example_info ''a'' 13337 ''x.exe'' 7 1500)) \<and>
   map_of (snd (refresh_instance (env_at 1500 7) ''a''
      [(''a'', Json (to_dict (example_info ''a'' 13337 ''x.exe'' 7 1000))), (''b'', NotJson)])) ''b'' =
     Some NotJson"
proof -
  let ?r = "example_info ''a'' 13337 ''x.exe'' 7 1000"
  let ?fs = "[(''a'', Json (to_dict ?r)), (''b'', NotJson)]"
  let ?e = "env_at 1500 7"
  have h1: "\<not> file_exists ''ghost'' ?fs"
    by (simp add: file_exists_def)
  have h2: "fst (find_instance_by_id ''a'' ?fs) = Inr (Some ?r)"
    by (simp add: find_instance_by_id_Some from_dict_to_dict)
  have t: "?r\<lparr>timestamp := JFloat (time_time ?e)\<rparr> = example_info ''a'' 13337 ''x.exe'' 7 1500"
    by (simp add: env_at_def example_info_def)
  have d: "''b'' \<noteq> ''a''" by simp
  from refresh_instance_touches_timestamp_only
         [where iid = "''ghost''" and fs = ?fs and e = ?e] h1
  have a: "refresh_instance ?e ''ghost'' ?fs = (Inr False, ?fs)" by blast
  note u = refresh_instance_touches_timestamp_only
         [where iid = "''a''" and fs = ?fs and info = ?r and e = ?e]
  note v = u [THEN conjunct2, THEN mp, OF h2]
  from v have b: "fst (refresh_instance ?e ''a'' ?fs) = Inr True \<and>
    fst (find_instance_by_id ''a'' (snd (refresh_instance ?e ''a'' ?fs))) =
      Inr (Some (?r\<lparr>timestamp := JFloat (time_time ?e)\<rparr>))"
    by simp
  note c = v [THEN conjunct2, THEN conjunct2, THEN spec, THEN mp, OF d]
  from h1 h2 a b c show ?thesis by (simp add: t)
qed

text \<open>
  Claim C5, as amended. A successful \<open>refresh_instance\<close> stores the clock reading of the
  call, \<^verbatim>\<open>time.time()\<close>, as the timestamp; it does not look at the value that was
  stored. The new timestamp is at least the old one exactly when the clock reading is not
  earlier than the stored timestamp.
\<close>

theorem refresh_sets_timestamp_to_clock:
  "fst (find_instance_by_id iid fs) = Inr (Some info) \<Longrightarrow>
     \<exists>info'. fst (find_instance_by_id iid (snd (refresh_instance e iid fs))) = Inr (Some info') \<and>
       timestamp info' = JFloat (time_time e) \<and>
       (\<forall>t t'. timestamp info = JFloat t \<and> timestamp info' = JFloat t' \<longrightarrow>
          (t \<le> t') = (t \<le> time_time e))"
proof -
  assume "fst (find_instance_by_id iid fs) = Inr (Some info)"
  then obtain d where d: "map_of fs iid = Some (Json d)" "from_dict d = Inr info"
    by (auto simp: find_instance_by_id_Some)
  then obtain kvs where kvs: "d = JDict kvs"
    using from_dict_JDict by blast
  let ?d' = "JDict (AList.update ''timestamp'' (JFloat (time_time e)) kvs)"
  have r: "refresh_instance e iid fs = (Inr True, write_json iid ?d' fs)"
    using d kvs by (simp add: refresh_instance_def file_exists_def read_json_def)
  have f: "from_dict ?d' = Inr (info\<lparr>timestamp := JFloat (time_time e)\<rparr>)"
    using d kvs by (simp add: from_dict_refresh)
  show ?thesis
    by (simp add: r find_instance_by_id_write f)
qed

theorem refresh_sets_timestamp_to_clock_witness:
  "fst (find_instance_by_id ''a''
     (snd (register_instance (env_at 1000 7) ''a'' ''127.0.0.1'' 13337 ''x.exe'' '''' []))) =
     Inr (Some \<lparr>instance_id = JStr ''a'', host = JStr ''127.0.0.1'', port = JInt 13337,
                 binary_name = JStr ''x.exe'', binary_path = JStr '''', pid = JInt 7,
                 timestamp = JFloat 1000\<rparr>) \<and>
   (\<exists>info'. fst (find_instance_by_id ''a'' (snd (refresh_instance (env_at 1030 7) ''a''
       (snd (register_instance (env_at 1000 7) ''a'' ''127.0.0.1'' 13337 ''x.exe'' '''' []))))) =
       Inr (Some info') \<and> timestamp info' = JFloat 1030)"
proof -
  let ?fs = "snd (register_instance (env_at 1000 7) ''a'' ''127.0.0.1'' 13337 ''x.exe'' '''' [])"
  let ?r = "\<lparr>instance_id = JStr ''a'', host = JStr ''127.0.0.1'', port = JInt 13337,
                 binary_name = JStr ''x.exe'', binary_path = JStr '''', pid = JInt 7,
                 timestamp = JFloat 1000\<rparr>"
  have h: "fst (find_instance_by_id ''a'' ?fs) = Inr (Some ?r)"
    by (simp add: register_instance_eq find_instance_by_id_write from_dict_to_dict env_at_def)
  have t: "time_time (env_at 1030 7) = 1030" by (simp add: env_at_def)
  from refresh_sets_timestamp_to_clock [OF h, where e = "env_at 1030 7"] h show ?thesis
    by (auto simp: t)
qed

text \<open>
  Claim C5 as stated says that the timestamp is never set backward. A record registered
  when the wall clock read 2000 and refreshed after the clock was set back to 1000 has
  the timestamp 1000 afterwards; \<^verbatim>\<open>time.time()\<close> is not a monotonic clock.
\<close>

theorem refresh_after_clock_set_back_counterexample:
  "fst (find_instance_by_id ''a''
     (snd (register_instance (env_at 2000 7) ''a'' ''127.0.0.1'' 13337 ''x.exe'' '''' []))) =
     Inr (Some \<lparr>instance_id = JStr ''a'', host = JStr ''127.0.0.1'', port = JInt 13337,
                 binary_name = JStr ''x.exe'', binary_path = JStr '''', pid = JInt 7,
                 timestamp = JFloat 2000\<rparr>) \<and>
   fst (refresh_instance (env_at 1000 7) ''a''
     (snd (register_instance (env_at 2000 7) ''a'' ''127.0.0.1'' 13337 ''x.exe'' '''' []))) = Inr True \<and>
   fst (find_instance_by_id ''a'' (snd (refresh_instance (env_at 1000 7) ''a''
     (snd (register_instance (env_at 2000 7) ''a'' ''127.0.0.1'' 13337 ''x.exe'' '''' []))))) =
     Inr (Some \<lparr>instance_id = JStr ''a'', host = JStr ''127.0.0.1'', port = JInt 13337,
                 binary_name = JStr ''x.exe'', binary_path = JStr '''', pid = JInt 7,
                 timestamp = JFloat 1000\<rparr>) \<and>
   \<not> ((2000::real) \<le> 1000)"
  by (simp add: register_instance_eq find_instance_by_id_write from_dict_to_dict env_at_def
        refresh_instance_def file_exists_def read_json_def write_json_def to_dict_def
        from_dict_def find_instance_by_id_def)

subsection \<open>Registering\<close>

text \<open>
  Claim C3, as amended. \<open>register_instance\<close> returns and persists a record whose
  \<open>instance_id\<close>, \<open>host\<close>, \<open>port\<close>, \<open>binary_name\<close> and \<open>binary_path\<close> are the
  arguments of the call, whose \<open>pid\<close> is the id of the calling process as
  \<^verbatim>\<open>os.getpid()\<close> gives it, and whose \<open>timestamp\<close> is the clock reading; no other
  file of the directory changes.
\<close>

theorem register_instance_persists_arguments_pid_and_clock:
  "fst (register_instance e iid h p bn bp fs) =
     Inr \<lparr>instance_id = JStr iid, host = JStr h, port = JInt p, binary_name = JStr bn,
           binary_path = JStr bp, pid = JInt (os_getpid e), timestamp = JFloat (time_time e)\<rparr> \<and>
   read_json iid (snd (register_instance e iid h p bn bp fs)) =
     Inr (JDict [(''instance_id'', JStr iid), (''host'', JStr h), (''port'', JInt p),
                 (''binary_name'', JStr bn), (''binary_path'', JStr bp),
                 (''pid'', JInt (os_getpid e)), (''timestamp'', JFloat (time_time e))]) \<and>
   (\<forall>other. other \<noteq> iid \<longrightarrow>
      map_of (snd (register_instance e iid h p bn bp fs)) other = map_of fs other)"
  by (simp add: register_instance_eq write_json_def read_json_def update_conv' to_dict_def)

theorem register_instance_persists_arguments_pid_and_clock_witness:
  "read_json ''a'' (snd (register_instance (env_at 1000 7) ''a'' ''127.0.0.1'' 13337 ''x.exe''
       ''/bin/x.exe'' [(''b'', NotJson)])) =
     Inr (JDict [(''instance_id'', JStr ''a''), (''host'', JStr ''127.0.0.1''), (''port'', JInt 13337),
                 (''binary_name'', JStr ''x.exe''), (''binary_path'', JStr ''/bin/x.exe''),
                 (''pid'', JInt 7), (''timestamp'', JFloat 1000)]) \<and>
   ''b'' \<noteq> ''a'' \<and>
   map_of (snd (register_instance (env_at 1000 7) ''a'' ''127.0.0.1'' 13337 ''x.exe''
       ''/bin/x.exe'' [(''b'', NotJson)])) ''b'' = Some NotJson"
proof -
  note t = register_instance_persists_arguments_pid_and_clock
          [where e = "env_at 1000 7" and iid = "''a''" and h = "''127.0.0.1''" and p = 13337
             and bn = "''x.exe''" and bp = "''/bin/x.exe''" and fs = "[(''b'', NotJson)]"]
  have d: "''b'' \<noteq> ''a''" by simp
  note o = t [THEN conjunct2, THEN conjunct2, THEN spec, THEN mp, OF d]
  from t [THEN conjunct2, THEN conjunct1] o d show ?thesis by (simp add: env_at_def)
qed

text \<open>
  Claim C3 as stated counts the owner process id among the values that the caller
  supplies. \<open>register_instance\<close> has no such parameter: two calls with the same
  arguments, at the same clock reading, persist different \<open>pid\<close> fields when
  \<^verbatim>\<open>os.getpid()\<close> differs.
\<close>

theorem register_pid_not_from_caller_counterexample:
  "read_json ''a'' (snd (register_instance (env_at 1000 7) ''a'' ''127.0.0.1'' 13337 ''x.exe'' '''' [])) =
     Inr (JDict [(''instance_id'', JStr ''a''), (''host'', JStr ''127.0.0.1''), (''port'', JInt 13337),
                 (''binary_name'', JStr ''x.exe''), (''binary_path'', JStr ''''),
                 (''pid'', JInt 7), (''timestamp'', JFloat 1000)]) \<and>
   read_json ''a'' (snd (register_instance (env_at 1000 8) ''a'' ''127.0.0.1'' 13337 ''x.exe'' '''' [])) =
     Inr (JDict [(''instance_id'', JStr ''a''), (''host'', JStr ''127.0.0.1''), (''port'', JInt 13337),
                 (''binary_name'', JStr ''x.exe''), (''binary_path'', JStr ''''),
                 (''pid'', JInt 8), (''timestamp'', JFloat 1000)]) \<and>
   JInt 7 \<noteq> JInt 8"
  by (simp add: register_instance_eq write_json_def read_json_def to_dict_def env_at_def)

text \<open>
  Claim C6. After \<open>register_instance\<close>, \<open>find_instance_by_id\<close> with the same id
  returns a record equal to the registered one in every field; the timestamp read back
  is the one that was written, so it is not below the original.
\<close>

theorem register_then_find_by_id:
  "\<exists>info found fs'.
     register_instance e iid h p bn bp fs = (Inr info, fs') \<and>
     find_instance_by_id iid fs' = (Inr (Some found), fs') \<and>
     found = info \<and>
     instance_id found = JStr iid \<and> host found = JStr h \<and> port found = JInt p \<and>
     binary_name found = JStr bn \<and> binary_path found = JStr bp \<and>
     pid found = JInt (os_getpid e) \<and>
     (\<exists>t t'. timestamp info = JFloat t \<and> timestamp found = JFloat t' \<and> t \<le> t')"
  by (simp add: register_instance_eq find_instance_by_id_write from_dict_to_dict)

theorem register_then_find_by_id_witness:
  "\<exists>info found fs'.
     register_instance (env_at 1000 7) ''inst1'' ''127.0.0.1'' 13337 ''test.exe''
       ''/path/to/test.exe'' [] = (Inr info, fs') \<and>
     find_instance_by_id ''inst1'' fs' = (Inr (Some found), fs') \<and>
     found = info \<and> instance_id found = JStr ''inst1'' \<and> binary_name found = JStr ''test.exe''"
  using register_then_find_by_id
          [where e = "env_at 1000 7" and iid = "''inst1''" and h = "''127.0.0.1''" and p = 13337
             and bn = "''test.exe''" and bp = "''/path/to/test.exe''" and fs = "[]"]
  by blast

subsection \<open>The two scans\<close>

lemma stale_and_dead_True:
  "stale_and_dead e info = Inr True \<longleftrightarrow>
     is_stale e info = Inr True \<and> is_alive e info = Inr False"
  by (cases "is_stale e info"; cases "is_alive e info")
     (auto simp: stale_and_dead_def split: if_splits)

lemma stale_and_dead_alive:
  "is_stale e info = Inr True \<Longrightarrow> is_alive e info = Inr True \<Longrightarrow>
     stale_and_dead e info = Inr False"
  by (simp add: stale_and_dead_def)

lemma verdict_record:
  "from_dict d = Inr info \<Longrightarrow>
     verdict e False (Some (Json d)) =
       (case stale_and_dead e info of
          Inl err \<Rightarrow> Inl err
        | Inr True \<Rightarrow> Inr None
        | Inr False \<Rightarrow> Inr (Some info))"
  by (simp add: verdict_Json)

lemma list_instances_result:
  "list_instances e inc fs = (Inr insts, fs') \<Longrightarrow>
     insts = concat (map (\<lambda>n. kept e inc (map_of fs n)) (map fst fs)) \<and>
     (\<forall>m. map_of fs' m = (if verdict e inc (map_of fs m) = Inr None then None else map_of fs m)) \<and>
     (\<forall>m. \<forall>err. verdict e inc (map_of fs m) \<noteq> Inl err)"
proof -
  assume a: "list_instances e inc fs = (Inr insts, fs')"
  note r = list_loop_result [OF a [unfolded list_instances_def]]
  have none: "\<And>m. m \<notin> set (map fst fs) \<Longrightarrow> map_of fs m = None"
    by (simp add: map_of_eq_None_iff)
  show ?thesis
  proof (intro conjI allI)
    show "insts = concat (map (\<lambda>n. kept e inc (map_of fs n)) (map fst fs))"
      using r by simp
  next
    fix m
    show "map_of fs' m = (if verdict e inc (map_of fs m) = Inr None then None else map_of fs m)"
      using r none [of m] by (cases "m \<in> set (map fst fs)") auto
  next
    fix m err
    show "verdict e inc (map_of fs m) \<noteq> Inl err"
      using r none [of m] by (cases "m \<in> set (map fst fs)") (auto simp: verdict_None)
  qed
qed

lemma cleanup_result:
  "cleanup_stale_instances e fs = (Inr k, fs') \<Longrightarrow>
     k = length (filter (\<lambda>n. verdict e False (map_of fs n) = Inr None) (map fst fs)) \<and>
     (\<forall>m. map_of fs' m = (if verdict e False (map_of fs m) = Inr None then None else map_of fs m)) \<and>
     (\<forall>m. \<forall>err. verdict e False (map_of fs m) \<noteq> Inl err)"
proof -
  assume a: "cleanup_stale_instances e fs = (Inr k, fs')"
  note r = cleanup_loop_result [OF a [unfolded cleanup_stale_instances_def]]
  have none: "\<And>m. m \<notin> set (map fst fs) \<Longrightarrow> map_of fs m = None"
    by (simp add: map_of_eq_None_iff)
  show ?thesis
  proof (intro conjI allI)
    show "k = length (filter (\<lambda>n. verdict e False (map_of fs n) = Inr None) (map fst fs))"
      using r by simp
  next
    fix m
    show "map_of fs' m = (if verdict e False (map_of fs m) = Inr None then None else map_of fs m)"
      using r none [of m] by (cases "m \<in> set (map fst fs)") auto
  next
    fix m err
    show "verdict e False (map_of fs m) \<noteq> Inl err"
      using r none [of m] by (cases "m \<in> set (map fst fs)") (auto simp: verdict_None)
  qed
qed

lemma kept_member:
  "map_of fs n = Some c \<Longrightarrow> verdict e inc (Some c) = Inr (Some info) \<Longrightarrow>
     info \<in> set (concat (map (\<lambda>n. kept e inc (map_of fs n)) (map fst fs)))"
proof -
  assume a: "map_of fs n = Some c" and v: "verdict e inc (Some c) = Inr (Some info)"
  from a have "n \<in> set (map fst fs)"
    by (metis map_of_eq_None_iff option.distinct(1) set_map)
  moreover have "info \<in> set (kept e inc (map_of fs n))"
    using a v by (simp add: kept_def)
  ultimately show ?thesis by auto
qed

text \<open>The scans return, rather than raise, on a directory whose files are not JSON or are
  records with a float timestamp and an integer pid that \<^verbatim>\<open>os.kill\<close> accepts.\<close>

lemma scans_return:
  assumes "\<forall>(n, c) \<in> set fs. c = NotJson \<or>
             (\<exists>iid h p bn bp owner t. os_kill e owner \<noteq> PidOutOfRange \<and>
                c = Json (to_dict \<lparr>instance_id = iid, host = h, port = p, binary_name = bn,
                       binary_path = bp, pid = JInt owner, timestamp = JFloat t\<rparr>))"
  shows "(\<exists>insts fs'. list_instances e False fs = (Inr insts, fs')) \<and>
         (\<exists>k fs'. cleanup_stale_instances e fs = (Inr k, fs'))"
proof -
  have v: "\<forall>m\<in>set (map fst fs). \<forall>err. verdict e False (map_of fs m) \<noteq> Inl err"
  proof (intro ballI allI)
    fix m err assume "m \<in> set (map fst fs)"
    then obtain c where c: "map_of fs m = Some c"
      by (metis map_of_eq_None_iff not_Some_eq set_map)
    then have "(m, c) \<in> set fs" by (rule map_of_SomeD)
    with assms consider "c = NotJson"
      | iid h p bn bp owner t where "os_kill e owner \<noteq> PidOutOfRange"
          "c = Json (to_dict \<lparr>instance_id = iid, host = h, port = p, binary_name = bn,
                       binary_path = bp, pid = JInt owner, timestamp = JFloat t\<rparr>)"
      by fastforce
    then show "verdict e False (map_of fs m) \<noteq> Inl err"
    proof cases
      case 1
      with c show ?thesis by (simp add: verdict_NotJson)
    next
      case 2
      then show ?thesis
        by (cases "os_kill e owner")
           (simp_all add: c verdict_record [OF from_dict_to_dict] stale_and_dead_def
              is_stale_def is_alive_def)
    qed
  qed
  show ?thesis
    using list_loop_returns [OF v, of "[]"] cleanup_loop_returns [OF v, of 0]
    by (simp add: list_instances_def cleanup_stale_instances_def)
qed

text \<open>
  Claim C1. Take a file of the directory that holds a record \<open>info\<close>. When
  \<open>list_instances\<close> with \<open>include_stale = False\<close> returns, the file is gone if and only
  if the record is stale and its owner process is dead, that is, \<open>is_stale\<close> is true
  and \<open>is_alive\<close> is false; otherwise the file is what it was. A record that is stale
  while its owner process is alive keeps its file and is in the returned list. The same
  holds for the file after \<open>cleanup_stale_instances\<close>. Here \<open>is_stale\<close> is
  \<open>time_time e - t > STALE_TIMEOUT\<close> for a timestamp \<open>t\<close>, and \<open>is_alive\<close> is false
  exactly when \<^verbatim>\<open>os.kill(pid, 0)\<close> raises an \<open>OSError\<close>.
\<close>

theorem reap_iff_stale_and_dead:
  assumes "map_of fs n = Some (Json d)" and "from_dict d = Inr info"
  shows
    "(list_instances e False fs = (Inr insts, fs1) \<longrightarrow>
        ((map_of fs1 n = None) = (is_stale e info = Inr True \<and> is_alive e info = Inr False)) \<and>
        (map_of fs1 n \<noteq> None \<longrightarrow> map_of fs1 n = Some (Json d)) \<and>
        (is_stale e info = Inr True \<and> is_alive e info = Inr True \<longrightarrow>
           map_of fs1 n = Some (Json d) \<and> info \<in> set insts)) \<and>
     (cleanup_stale_instances e fs = (Inr k, fs2) \<longrightarrow>
        ((map_of fs2 n = None) = (is_stale e info = Inr True \<and> is_alive e info = Inr False)) \<and>
        (map_of fs2 n \<noteq> None \<longrightarrow> map_of fs2 n = Some (Json d)) \<and>
        (is_stale e info = Inr True \<and> is_alive e info = Inr True \<longrightarrow>
           map_of fs2 n = Some (Json d))) \<and>
     (\<forall>t. timestamp info = JFloat t \<longrightarrow>
        is_stale e info = Inr (time_time e - t > STALE_TIMEOUT)) \<and>
     (\<forall>p. pid info = JInt p \<longrightarrow>
        (is_alive e info = Inr False) = (os_kill e p = NoSuchProcess \<or> os_kill e p = NotPermitted))"
proof (intro conjI impI allI)
  assume a: "list_instances e False fs = (Inr insts, fs1)"
  note r = list_instances_result [OF a]
  from r have nr: "\<And>err. stale_and_dead e info \<noteq> Inl err"
    using assms verdict_record [OF assms(2), of e]
    by (metis sum.case(1))
  from r have fs1: "map_of fs1 n = (if stale_and_dead e info = Inr True then None else Some (Json d))"
    using assms verdict_record [OF assms(2), of e] nr
    by (cases "stale_and_dead e info") (auto split: bool.splits)
  show "(map_of fs1 n = None) = (is_stale e info = Inr True \<and> is_alive e info = Inr False)"
    using fs1 by (simp add: stale_and_dead_True)
  show "map_of fs1 n \<noteq> None \<Longrightarrow> map_of fs1 n = Some (Json d)"
    using fs1 by (simp split: if_splits)
  assume sa: "is_stale e info = Inr True \<and> is_alive e info = Inr True"
  then have f: "stale_and_dead e info = Inr False" by (simp add: stale_and_dead_alive)
  then show "map_of fs1 n = Some (Json d)" using fs1 by simp
  from f have "verdict e False (Some (Json d)) = Inr (Some info)"
    by (simp add: verdict_record [OF assms(2)])
  from kept_member [OF assms(1) this] r show "info \<in> set insts" by simp
next
  assume a: "cleanup_stale_instances e fs = (Inr k, fs2)"
  note r = cleanup_result [OF a]
  from r have nr: "\<And>err. stale_and_dead e info \<noteq> Inl err"
    using assms verdict_record [OF assms(2), of e]
    by (metis sum.case(1))
  from r have fs2: "map_of fs2 n = (if stale_and_dead e info = Inr True then None else Some (Json d))"
    using assms verdict_record [OF assms(2), of e] nr
    by (cases "stale_and_dead e info") (auto split: bool.splits)
  show "(map_of fs2 n = None) = (is_stale e info = Inr True \<and> is_alive e info = Inr False)"
    using fs2 by (simp add: stale_and_dead_True)
  show "map_of fs2 n \<noteq> None \<Longrightarrow> map_of fs2 n = Some (Json d)"
    using fs2 by (simp split: if_splits)
  assume sa: "is_stale e info = Inr True \<and> is_alive e info = Inr True"
  then have f: "stale_and_dead e info = Inr False" by (simp add: stale_and_dead_alive)
  then show "map_of fs2 n = Some (Json d)" using fs2 by simp
next
  fix t assume "timestamp info = JFloat t"
  then show "is_stale e info = Inr (time_time e - t > STALE_TIMEOUT)"
    by (simp add: is_stale_def)
next
  fix p assume "pid info = JInt p"
  then show "(is_alive e info = Inr False) = (os_kill e p = NoSuchProcess \<or> os_kill e p = NotPermitted)"
    by (simp add: is_alive_def split: kill_outcome.splits)
qed

theorem reap_iff_stale_and_dead_witness:
  "list_instances (env_at 1000 7) False example_registry =
     (Inr [example_info ''asleep'' 13338 ''Sleepy.EXE'' 7 0,
           example_info ''fresh'' 13339 ''MyBinary.EXE'' 999 990],
      [(''asleep'', Json (to_dict (example_info ''asleep'' 13338 ''Sleepy.EXE'' 7 0))),
       (''fresh'', Json (to_dict (example_info ''fresh'' 13339 ''MyBinary.EXE'' 999 990)))]) \<and>
   cleanup_stale_instances (env_at 1000 7) example_registry =
     (Inr 2,
      [(''asleep'', Json (to_dict (example_info ''asleep'' 13338 ''Sleepy.EXE'' 7 0))),
       (''fresh'', Json (to_dict (example_info ''fresh'' 13339 ''MyBinary.EXE'' 999 990)))]) \<and>
   is_stale (env_at 1000 7) (example_info ''dead'' 13337 ''old.exe'' 999 0) = Inr True \<and>
   is_alive (env_at 1000 7) (example_info ''dead'' 13337 ''old.exe'' 999 0) = Inr False \<and>
   is_stale (env_at 1000 7) (example_info ''asleep'' 13338 ''Sleepy.EXE'' 7 0) = Inr True \<and>
   is_alive (env_at 1000 7) (example_info ''asleep'' 13338 ''Sleepy.EXE'' 7 0) = Inr True \<and>
   is_stale (env_at 1000 7) (example_info ''fresh'' 13339 ''MyBinary.EXE'' 999 990) = Inr False"
proof -
  let ?e = "env_at 1000 7"
  let ?dead = "example_info ''dead'' 13337 ''old.exe'' 999 0"
  let ?asleep = "example_info ''asleep'' 13338 ''Sleepy.EXE'' 7 0"
  let ?fresh = "example_info ''fresh'' 13339 ''MyBinary.EXE'' 999 990"
  let ?insts = "[?asleep, ?fresh]"
  let ?fs1 = "[(''asleep'', Json (to_dict ?asleep)), (''fresh'', Json (to_dict ?fresh))]"
  have l: "list_instances ?e False example_registry = (Inr ?insts, ?fs1)"
    by code_simp
  have c: "cleanup_stale_instances ?e example_registry = (Inr 2, ?fs1)"
    by code_simp
  have d1: "map_of example_registry ''dead'' = Some (Json (to_dict ?dead))"
    by (simp add: example_registry_def)
  have a1: "map_of example_registry ''asleep'' = Some (Json (to_dict ?asleep))"
    by (simp add: example_registry_def)
  have f1: "map_of example_registry ''fresh'' = Some (Json (to_dict ?fresh))"
    by (simp add: example_registry_def)
  note td = reap_iff_stale_and_dead [OF d1 from_dict_to_dict, where e = ?e and insts = ?insts
      and ?fs1.0 = ?fs1 and k = 2 and ?fs2.0 = ?fs1]
  note ta = reap_iff_stale_and_dead [OF a1 from_dict_to_dict, where e = ?e and insts = ?insts
      and ?fs1.0 = ?fs1 and k = 2 and ?fs2.0 = ?fs1]
  note tf = reap_iff_stale_and_dead [OF f1 from_dict_to_dict, where e = ?e and insts = ?insts
      and ?fs1.0 = ?fs1 and k = 2 and ?fs2.0 = ?fs1]
  have now: "time_time ?e = 1000" by (simp add: env_at_def)
  have gone: "map_of ?fs1 ''dead'' = None" by simp
  have there: "map_of ?fs1 ''asleep'' \<noteq> None" by simp
  from td l c gone
  have dd: "is_stale ?e ?dead = Inr True \<and> is_alive ?e ?dead = Inr False" by blast
  have "timestamp ?asleep = JFloat 0" by (simp add: example_info_def)
  with ta have "is_stale ?e ?asleep = Inr (time_time ?e - 0 > STALE_TIMEOUT)" by blast
  then have sa: "is_stale ?e ?asleep = Inr True" by (simp add: now STALE_TIMEOUT_def)
  have "pid ?asleep = JInt 7" by (simp add: example_info_def)
  with ta have "(is_alive ?e ?asleep = Inr False) =
      (os_kill ?e 7 = NoSuchProcess \<or> os_kill ?e 7 = NotPermitted)" by blast
  then have na: "is_alive ?e ?asleep \<noteq> Inr False" by (simp add: env_at_def)
  have aa: "is_alive ?e ?asleep = Inr True"
    by (simp add: is_alive_def example_info_def env_at_def)
  have "timestamp ?fresh = JFloat 990" by (simp add: example_info_def)
  with tf have "is_stale ?e ?fresh = Inr (time_time ?e - 990 > STALE_TIMEOUT)" by blast
  then have sf: "is_stale ?e ?fresh = Inr False" by (simp add: now STALE_TIMEOUT_def)
  from ta l sa aa have "?asleep \<in> set ?insts" by blast
  from l c dd sa aa sf show ?thesis by blast
qed










subsection \<open>Finding a free port\<close>

lemma no_ports_message_eq: "no_ports_message = ''No available ports in range 13337-13437''"
  by (simp add: no_ports_message_def str_int_def PORT_RANGE_START_def PORT_RANGE_END_def)

lemma port_set_eq: "port_set insts = Inr reg \<Longrightarrow> reg = map port insts"
proof (induction insts arbitrary: reg)
  case Nil
  then show ?case by simp
next
  case (Cons i insts)
  then show ?case
    by (cases "port_set insts") (auto split: if_splits)
qed

lemma first_fit_here:
  fixes i :: int
  assumes "P i" and "i \<le> j"
  shows "(i \<le> p \<and> p \<le> j \<and> P p \<and> (\<forall>q. i \<le> q \<and> q < p \<longrightarrow> \<not> P q)) = (i = p)"
proof
  assume r: "i \<le> p \<and> p \<le> j \<and> P p \<and> (\<forall>q. i \<le> q \<and> q < p \<longrightarrow> \<not> P q)"
  then have "i \<le> i \<and> i < p \<longrightarrow> \<not> P i" by blast
  with assms(1) have "\<not> i < p" by simp
  with r show "i = p" by simp
next
  assume "i = p"
  with assms show "i \<le> p \<and> p \<le> j \<and> P p \<and> (\<forall>q. i \<le> q \<and> q < p \<longrightarrow> \<not> P q)"
    by auto
qed

lemma first_fit_step:
  fixes i :: int
  assumes n: "\<not> P i"
  shows "(i + 1 \<le> p \<and> p \<le> j \<and> P p \<and> (\<forall>q. i + 1 \<le> q \<and> q < p \<longrightarrow> \<not> P q)) =
         (i \<le> p \<and> p \<le> j \<and> P p \<and> (\<forall>q. i \<le> q \<and> q < p \<longrightarrow> \<not> P q))"
proof
  assume l: "i + 1 \<le> p \<and> p \<le> j \<and> P p \<and> (\<forall>q. i + 1 \<le> q \<and> q < p \<longrightarrow> \<not> P q)"
  then have ip: "i \<le> p" by linarith
  have "\<forall>q. i \<le> q \<and> q < p \<longrightarrow> \<not> P q"
  proof (intro allI impI)
    fix q assume q: "i \<le> q \<and> q < p"
    show "\<not> P q"
    proof (cases "q = i")
      case True
      with n show ?thesis by simp
    next
      case False
      with q have "i + 1 \<le> q \<and> q < p" by linarith
      with l show ?thesis by blast
    qed
  qed
  with l ip show "i \<le> p \<and> p \<le> j \<and> P p \<and> (\<forall>q. i \<le> q \<and> q < p \<longrightarrow> \<not> P q)" by blast
next
  assume r: "i \<le> p \<and> p \<le> j \<and> P p \<and> (\<forall>q. i \<le> q \<and> q < p \<longrightarrow> \<not> P q)"
  with n have "p \<noteq> i" by blast
  with r have ip: "i + 1 \<le> p" by linarith
  have "\<forall>q. i + 1 \<le> q \<and> q < p \<longrightarrow> \<not> P q"
  proof (intro allI impI)
    fix q assume "i + 1 \<le> q \<and> q < p"
    then have "i \<le> q \<and> q < p" by linarith
    with r show "\<not> P q" by blast
  qed
  with r ip show "i + 1 \<le> p \<and> p \<le> j \<and> P p \<and> (\<forall>q. i + 1 \<le> q \<and> q < p \<longrightarrow> \<not> P q)"
    by blast
qed

lemma none_fit_step:
  fixes i :: int
  assumes n: "\<not> P i"
  shows "(\<forall>q. i + 1 \<le> q \<and> q \<le> j \<longrightarrow> \<not> P q) = (\<forall>q. i \<le> q \<and> q \<le> j \<longrightarrow> \<not> P q)"
proof
  assume l: "\<forall>q. i + 1 \<le> q \<and> q \<le> j \<longrightarrow> \<not> P q"
  show "\<forall>q. i \<le> q \<and> q \<le> j \<longrightarrow> \<not> P q"
  proof (intro allI impI)
    fix q assume q: "i \<le> q \<and> q \<le> j"
    show "\<not> P q"
    proof (cases "q = i")
      case True
      with n show ?thesis by simp
    next
      case False
      with q have "i + 1 \<le> q \<and> q \<le> j" by linarith
      with l show ?thesis by blast
    qed
  qed
next
  assume r: "\<forall>q. i \<le> q \<and> q \<le> j \<longrightarrow> \<not> P q"
  show "\<forall>q. i + 1 \<le> q \<and> q \<le> j \<longrightarrow> \<not> P q"
  proof (intro allI impI)
    fix q assume "i + 1 \<le> q \<and> q \<le> j"
    then have "i \<le> q \<and> q \<le> j" by linarith
    with r show "\<not> P q" by blast
  qed
qed

lemma port_scan_taken:
  "\<not> port_in i reg \<and> socket_bind e h i \<Longrightarrow> port_scan e h reg (i # ps) = Inr i"
  by simp

lemma port_scan_skipped:
  "\<not> (\<not> port_in i reg \<and> socket_bind e h i) \<Longrightarrow>
     port_scan e h reg (i # ps) = port_scan e h reg ps"
  by auto

lemma port_scan_upto_Inr:
  "port_scan e h reg [a..b] = Inr p \<longleftrightarrow>
     a \<le> p \<and> p \<le> b \<and> (\<not> port_in p reg \<and> socket_bind e h p) \<and>
     (\<forall>q. a \<le> q \<and> q < p \<longrightarrow> \<not> (\<not> port_in q reg \<and> socket_bind e h q))"
proof (induction a b rule: upto.induct)
  case (1 i j)
  show ?case
  proof (cases "i \<le> j")
    case False
    then have "[i..j] = []" by simp
    with False show ?thesis by auto
  next
    case True
    then have u: "[i..j] = i # [i + 1..j]" by (simp add: upto_rec1)
    show ?thesis
    proof (cases "\<not> port_in i reg \<and> socket_bind e h i")
      case taken: True
      have "(port_scan e h reg [i..j] = Inr p) = (i = p)"
        by (simp only: u port_scan_taken [OF taken] sum.inject)
      also note first_fit_here
        [of "\<lambda>q. \<not> port_in q reg \<and> socket_bind e h q" i j p, OF taken True, symmetric]
      finally show ?thesis .
    next
      case skipped: False
      have "(port_scan e h reg [i..j] = Inr p) = (port_scan e h reg [i + 1..j] = Inr p)"
        by (simp only: u port_scan_skipped [OF skipped])
      also note "1.IH" [OF True]
      also note first_fit_step
        [of "\<lambda>q. \<not> port_in q reg \<and> socket_bind e h q" i p j, OF skipped]
      finally show ?thesis .
    qed
  qed
qed

lemma port_scan_upto_Inl:
  "port_scan e h reg [a..b] = Inl x \<longleftrightarrow>
     x = RuntimeError no_ports_message \<and>
     (\<forall>q. a \<le> q \<and> q \<le> b \<longrightarrow> \<not> (\<not> port_in q reg \<and> socket_bind e h q))"
proof (induction a b rule: upto.induct)
  case (1 i j)
  show ?case
  proof (cases "i \<le> j")
    case False
    then have "[i..j] = []" by simp
    with False show ?thesis by auto
  next
    case True
    then have u: "[i..j] = i # [i + 1..j]" by (simp add: upto_rec1)
    show ?thesis
    proof (cases "\<not> port_in i reg \<and> socket_bind e h i")
      case taken: True
      have s: "port_scan e h reg [i..j] = Inr i"
        by (simp only: u port_scan_taken [OF taken])
      have "\<not> (\<forall>q. i \<le> q \<and> q \<le> j \<longrightarrow> \<not> (\<not> port_in q reg \<and> socket_bind e h q))"
      proof
        assume "\<forall>q. i \<le> q \<and> q \<le> j \<longrightarrow> \<not> (\<not> port_in q reg \<and> socket_bind e h q)"
        then have "i \<le> i \<and> i \<le> j \<longrightarrow> \<not> (\<not> port_in i reg \<and> socket_bind e h i)" by blast
        with taken True show False by simp
      qed
      with s show ?thesis by simp
    next
      case skipped: False
      have "(port_scan e h reg [i..j] = Inl x) = (port_scan e h reg [i + 1..j] = Inl x)"
        by (simp only: u port_scan_skipped [OF skipped])
      also note "1.IH" [OF True]
      also note none_fit_step
        [of "\<lambda>q. \<not> port_in q reg \<and> socket_bind e h q" i j, OF skipped]
      finally show ?thesis .
    qed
  qed
qed

lemma port_range_last: "(p \<le> PORT_RANGE_END - 1) = (p < PORT_RANGE_END)"
  by linarith

lemma fresh_record_listed:
  assumes "list_instances e False fs = (Inr insts, fs')"
    and "map_of fs n = Some (Json d)" and "from_dict d = Inr info"
    and "is_stale e info = Inr False"
  shows "info \<in> set insts"
proof -
  have "stale_and_dead e info = Inr False"
    using assms(4) by (simp add: stale_and_dead_def)
  then have "verdict e False (Some (Json d)) = Inr (Some info)"
    by (simp add: verdict_record [OF assms(3)])
  from kept_member [OF assms(2) this] list_instances_result [OF assms(1)]
  show ?thesis by simp
qed

text \<open>
  Claim C7. Let \<open>reg\<close> be the ports of the records that \<open>list_instances\<close> returns, the
  snapshot. \<open>find_available_port\<close> returns \<open>p\<close> exactly when \<open>p\<close> lies in the range from
  \<open>PORT_RANGE_START\<close> up to, not including, \<open>PORT_RANGE_END\<close>, is not in the snapshot,
  can be bound, and every smaller candidate of the range is in the snapshot or cannot be
  bound: the scan is ascending and first-fit. It raises \<open>RuntimeError\<close> with the
  message that names the range 13337-13437 exactly when every candidate is in the
  snapshot or cannot be bound. The port of a record that is not stale is never returned;
  so 13337 is not returned while a fresh record holds it.
\<close>

theorem find_available_port_first_fit:
  "(list_instances e False fs = (Inr insts, fs') \<and> port_set insts = Inr reg \<longrightarrow>
      snd (find_available_port e h fs) = fs' \<and>
      reg = map port insts \<and>
      (\<forall>p. fst (find_available_port e h fs) = Inr p \<longleftrightarrow>
         PORT_RANGE_START \<le> p \<and> p < PORT_RANGE_END \<and>
         \<not> port_in p reg \<and> socket_bind e h p \<and>
         (\<forall>q. PORT_RANGE_START \<le> q \<and> q < p \<longrightarrow> port_in q reg \<or> \<not> socket_bind e h q)) \<and>
      ((fst (find_available_port e h fs) =
          Inl (RuntimeError ''No available ports in range 13337-13437'')) =
       (\<forall>q. PORT_RANGE_START \<le> q \<and> q < PORT_RANGE_END \<longrightarrow>
          port_in q reg \<or> \<not> socket_bind e h q))) \<and>
   (\<forall>n d info q. map_of fs n = Some (Json d) \<and> from_dict d = Inr info \<and>
       is_stale e info = Inr False \<and> port info = JInt q \<longrightarrow>
       fst (find_available_port e h fs) \<noteq> Inr q) \<and>
   PORT_RANGE_START = 13337 \<and> PORT_RANGE_END = 13437"
proof (intro conjI impI allI)
  assume a: "list_instances e False fs = (Inr insts, fs') \<and> port_set insts = Inr reg"
  then have f: "find_available_port e h fs =
      (port_scan e h reg [PORT_RANGE_START..PORT_RANGE_END - 1], fs')"
    by (simp add: find_available_port_def)
  show "snd (find_available_port e h fs) = fs'" by (simp add: f)
  show "reg = map port insts" using a by (simp add: port_set_eq)
  show "\<And>p. fst (find_available_port e h fs) = Inr p \<longleftrightarrow>
         PORT_RANGE_START \<le> p \<and> p < PORT_RANGE_END \<and>
         \<not> port_in p reg \<and> socket_bind e h p \<and>
         (\<forall>q. PORT_RANGE_START \<le> q \<and> q < p \<longrightarrow> port_in q reg \<or> \<not> socket_bind e h q)"
    by (simp add: f port_scan_upto_Inr port_range_last)
  show "(fst (find_available_port e h fs) =
          Inl (RuntimeError ''No available ports in range 13337-13437'')) =
       (\<forall>q. PORT_RANGE_START \<le> q \<and> q < PORT_RANGE_END \<longrightarrow>
          port_in q reg \<or> \<not> socket_bind e h q)"
    by (simp add: f port_scan_upto_Inl no_ports_message_eq port_range_last)
next
  fix n d info q
  assume b: "map_of fs n = Some (Json d) \<and> from_dict d = Inr info \<and>
       is_stale e info = Inr False \<and> port info = JInt q"
  show "fst (find_available_port e h fs) \<noteq> Inr q"
  proof (cases "list_instances e False fs")
    case (Pair r fs')
    show ?thesis
    proof (cases r)
      case (Inl err)
      with Pair show ?thesis by (simp add: find_available_port_def)
    next
      case (Inr insts)
      with Pair have l: "list_instances e False fs = (Inr insts, fs')" by simp
      from fresh_record_listed [OF l] b have m: "info \<in> set insts" by blast
      show ?thesis
      proof (cases "port_set insts")
        case (Inl err)
        with l show ?thesis by (simp add: find_available_port_def)
      next
        case (Inr reg)
        then have reg: "reg = map port insts" by (rule port_set_eq)
        with m b have "JInt q \<in> set reg" by force
        then have "port_in q reg"
          by (auto simp: port_in_def list_ex_iff intro!: bexI [of _ "JInt q"])
        moreover from l Inr have "find_available_port e h fs =
            (port_scan e h reg [PORT_RANGE_START..PORT_RANGE_END - 1], fs')"
          by (simp add: find_available_port_def)
        ultimately show ?thesis by (simp add: port_scan_upto_Inr)
      qed
    qed
  qed
next
  show "PORT_RANGE_START = 13337" by (simp add: PORT_RANGE_START_def)
  show "PORT_RANGE_END = 13437" by (simp add: PORT_RANGE_END_def)
qed


theorem find_available_port_first_fit_witness:
  "list_instances (env_at 1000 7) False
     [(''a'', Json (to_dict (example_info ''a'' 13337 ''x.exe'' 7 990)))] =
     (Inr [example_info ''a'' 13337 ''x.exe'' 7 990],
      [(''a'', Json (to_dict (example_info ''a'' 13337 ''x.exe'' 7 990)))]) \<and>
   port_set [example_info ''a'' 13337 ''x.exe'' 7 990] = Inr [JInt 13337] \<and>
   is_stale (env_at 1000 7) (example_info ''a'' 13337 ''x.exe'' 7 990) = Inr False \<and>
   find_available_port (env_at 1000 7) ''127.0.0.1''
     [(''a'', Json (to_dict (example_info ''a'' 13337 ''x.exe'' 7 990)))] =
     (Inr 13339, [(''a'', Json (to_dict (example_info ''a'' 13337 ''x.exe'' 7 990)))]) \<and>
   fst (find_available_port (env_at 1000 7) ''127.0.0.1''
     [(''a'', Json (to_dict (example_info ''a'' 13337 ''x.exe'' 7 990)))]) \<noteq> Inr 13337 \<and>
   \<not> port_in 13339 [JInt 13337] \<and> socket_bind (env_at 1000 7) ''127.0.0.1'' 13339 \<and>
   (port_in 13337 [JInt 13337] \<or> \<not> socket_bind (env_at 1000 7) ''127.0.0.1'' 13337) \<and>
   (port_in 13338 [JInt 13337] \<or> \<not> socket_bind (env_at 1000 7) ''127.0.0.1'' 13338) \<and>
   list_instances (env_at 1000 7\<lparr>socket_bind := \<lambda>h q. False\<rparr>) False [] = (Inr [], []) \<and>
   fst (find_available_port (env_at 1000 7\<lparr>socket_bind := \<lambda>h q. False\<rparr>) ''127.0.0.1'' []) =
     Inl (RuntimeError ''No available ports in range 13337-13437'')"
proof -
  let ?e = "env_at 1000 7"
  let ?a = "example_info ''a'' 13337 ''x.exe'' 7 990"
  let ?fs = "[(''a'', Json (to_dict ?a))]"
  have l: "list_instances ?e False ?fs = (Inr [?a], ?fs)" by code_simp
  have ps: "port_set [?a] = Inr [JInt 13337]" by (simp add: example_info_def)
  have st: "is_stale ?e ?a = Inr False"
    by (simp add: is_stale_def example_info_def env_at_def STALE_TIMEOUT_def)
  have f: "find_available_port ?e ''127.0.0.1'' ?fs = (Inr 13339, ?fs)" by code_simp
  have m: "map_of ?fs ''a'' = Some (Json (to_dict ?a))" by simp
  have pa: "port ?a = JInt 13337" by (simp add: example_info_def)
  note t = find_available_port_first_fit
    [where e = ?e and fs = ?fs and insts = "[?a]" and fs' = ?fs and reg = "[JInt 13337]"
       and h = "''127.0.0.1''"]
  from t l ps f
  have c: "PORT_RANGE_START \<le> 13339 \<and> 13339 < PORT_RANGE_END \<and>
         \<not> port_in 13339 [JInt 13337] \<and> socket_bind ?e ''127.0.0.1'' 13339 \<and>
         (\<forall>q. PORT_RANGE_START \<le> q \<and> q < 13339 \<longrightarrow>
            port_in q [JInt 13337] \<or> \<not> socket_bind ?e ''127.0.0.1'' q)"
    by (metis fst_conv)
  from t have s: "PORT_RANGE_START = 13337" by blast
  from c s have q1: "port_in 13337 [JInt 13337] \<or> \<not> socket_bind ?e ''127.0.0.1'' 13337"
    by simp
  from c s have q2: "port_in 13338 [JInt 13337] \<or> \<not> socket_bind ?e ''127.0.0.1'' 13338"
    by simp
  from t m from_dict_to_dict [of ?a] st pa
  have n: "fst (find_available_port ?e ''127.0.0.1'' ?fs) \<noteq> Inr 13337" by blast
  let ?x = "env_at 1000 7\<lparr>socket_bind := \<lambda>h q. False\<rparr>"
  have lx: "list_instances ?x False [] = (Inr [], [])" by (simp add: list_instances_def)
  have px: "port_set [] = Inr []" by simp
  note tx = find_available_port_first_fit
    [where e = ?x and fs = "[]" and insts = "[]" and fs' = "[]" and reg = "[]"
       and h = "''127.0.0.1''", THEN conjunct1, THEN mp, OF conjI [OF lx px]]
  note ex = tx [THEN conjunct2, THEN conjunct2, THEN conjunct2]
  have "\<forall>q. PORT_RANGE_START \<le> q \<and> q < PORT_RANGE_END \<longrightarrow>
          port_in q [] \<or> \<not> socket_bind ?x ''127.0.0.1'' q"
    by simp
  with ex have x: "fst (find_available_port ?x ''127.0.0.1'' []) =
     Inl (RuntimeError ''No available ports in range 13337-13437'')"
    by (rule iffD2)
  from l ps st f n c q1 q2 have "?thesis = (list_instances ?x False [] = (Inr [], []) \<and>
   fst (find_available_port ?x ''127.0.0.1'' []) =
     Inl (RuntimeError ''No available ports in range 13337-13437''))"
    by simp
  with lx x show ?thesis by simp
qed

subsection \<open>Finding an instance by the name of its binary\<close>

















end
